theory Spec2Isabelle
  imports Main
begin

section \<open>JavaScript values used by the script\<close>

text \<open>
  The repository holds one script in three states: the TypeScript script, the older
  \<^verbatim>\<open>index.mjs\<close>, and a later copy of the TypeScript script (the text that follows the
  README). Each is a linear, single-threaded program: for every suite of a list it
  aggregates the counts of a test report, reads the counts of the reference run back from
  the summary of a check run, compares the two and pushes one verdict line. The functions
  \<^verbatim>\<open>getCurrentResults\<close> and the loop body are the same text in all three; where the
  states differ, the definition from \<^verbatim>\<open>index.mjs\<close> carries the suffix \<^verbatim>\<open>_mjs\<close> and the
  one from the later copy the suffix \<^verbatim>\<open>_update\<close>. The model starts after the token check
  and the listing of the check runs of \<^verbatim>\<open>main\<close>.

  Strings are lists of characters. The regular expression and \<^verbatim>\<open>parseInt\<close> only ever
  test for ASCII characters, so a character outside ASCII is simply a character that is
  neither a digit, nor a word character, nor white space.

  A JavaScript number that holds a count is an integer or \<^verbatim>\<open>NaN\<close>. Comparisons of two
  integers are exact; \<^verbatim>\<open>+\<close> and \<^verbatim>\<open>-\<close> round their result as the 64-bit floating-point
  format does, which leaves every result of magnitude up to \<open>2 ^ 53\<close> as it is. Results
  beyond the largest finite number (about \<open>2 ^ 1024\<close>) are not modelled.
\<close>

datatype number = Num int | NaN

text \<open>
  The number a sum or a difference of two integers is stored as: the integer itself up to
  \<open>2 ^ 53 = 9007199254740992\<close> in magnitude, and above that the nearest integer with 53
  significant bits, a tie going to the one whose last bit is 0. \<open>ulp n\<close> is the distance
  between two such integers around \<open>n\<close>.
\<close>

fun ulp :: "nat \<Rightarrow> nat" where
  "ulp n = (if n < 9007199254740992 then 1 else 2 * ulp (n div 2))"

declare ulp.simps [simp del]

definition round_nat64 :: "nat \<Rightarrow> nat" where
  "round_nat64 n =
     (let u = ulp n; q = n div u; r = n mod u
      in if u < 2 * r \<or> (2 * r = u \<and> odd q) then (q + 1) * u else q * u)"

definition round64 :: "int \<Rightarrow> int" where
  "round64 i = (if i < 0 then - int (round_nat64 (nat (- i))) else int (round_nat64 (nat i)))"

text \<open>\<^verbatim>\<open>+\<close> and \<^verbatim>\<open>-\<close> on numbers: the exact result, rounded; \<^verbatim>\<open>NaN\<close> is kept.\<close>

fun js_add :: "number \<Rightarrow> number \<Rightarrow> number" where
  "js_add (Num a) (Num b) = Num (round64 (a + b))"
| "js_add _ _ = NaN"

fun js_sub :: "number \<Rightarrow> number \<Rightarrow> number" where
  "js_sub (Num a) (Num b) = Num (round64 (a - b))"
| "js_sub _ _ = NaN"

text \<open>Comparisons with \<^verbatim>\<open>NaN\<close> are false, also \<^verbatim>\<open>NaN == NaN\<close>.\<close>

fun js_gt :: "number \<Rightarrow> number \<Rightarrow> bool" where
  "js_gt (Num a) (Num b) = (a > b)"
| "js_gt _ _ = False"

fun js_lt :: "number \<Rightarrow> number \<Rightarrow> bool" where
  "js_lt (Num a) (Num b) = (a < b)"
| "js_lt _ _ = False"

fun js_eq :: "number \<Rightarrow> number \<Rightarrow> bool" where
  "js_eq (Num a) (Num b) = (a = b)"
| "js_eq _ _ = False"

subsection \<open>Characters and decimal numerals\<close>

definition is_digit :: "char \<Rightarrow> bool" where
  \<comment> \<open>the class \<^verbatim>\<open>\d\<close>, and the digits \<^verbatim>\<open>parseInt\<close> accepts in radix 10\<close>
  "is_digit c = (48 \<le> (of_char c :: nat) \<and> (of_char c :: nat) \<le> 57)"

definition is_word :: "char \<Rightarrow> bool" where
  \<comment> \<open>the class \<^verbatim>\<open>\w\<close>: \<^verbatim>\<open>[A-Za-z0-9_]\<close>\<close>
  "is_word c = (let n = (of_char c :: nat) in
     (48 \<le> n \<and> n \<le> 57) \<or> (65 \<le> n \<and> n \<le> 90) \<or> (97 \<le> n \<and> n \<le> 122) \<or> n = 95)"

definition is_space :: "char \<Rightarrow> bool" where
  \<comment> \<open>the ASCII white space and line terminators that \<^verbatim>\<open>parseInt\<close> skips:
      TAB, LF, VT, FF, CR, SP\<close>
  "is_space c = (let n = (of_char c :: nat) in (9 \<le> n \<and> n \<le> 13) \<or> n = 32)"

definition digit_val :: "char \<Rightarrow> nat" where
  "digit_val c = of_char c - 48"

definition digit_chr :: "nat \<Rightarrow> char" where
  "digit_chr d = char_of (48 + d)"

text \<open>The value of a run of decimal digits, most significant digit first.\<close>

fun dec_value :: "nat \<Rightarrow> string \<Rightarrow> nat" where
  "dec_value acc [] = acc"
| "dec_value acc (c # cs) = dec_value (10 * acc + digit_val c) cs"

fun nat_to_string :: "nat \<Rightarrow> string" where
  "nat_to_string n =
     (if n < 10 then [digit_chr n] else nat_to_string (n div 10) @ [digit_chr (n mod 10)])"

declare nat_to_string.simps [simp del]

text \<open>
  \<^verbatim>\<open>parseInt(s, 10)\<close>: skip leading white space, read an optional sign, then the
  longest run of decimal digits; \<^verbatim>\<open>NaN\<close> when that run is empty. Whatever follows the
  digits is ignored.
\<close>

definition parseInt :: "string \<Rightarrow> number" where
  "parseInt s =
     (let t = dropWhile is_space s;
          neg = (t \<noteq> [] \<and> hd t = CHR ''-'');
          u = (if t \<noteq> [] \<and> (hd t = CHR ''-'' \<or> hd t = CHR ''+'') then tl t else t);
          ds = takeWhile is_digit u
      in if ds = [] then NaN
         else Num (if neg then - int (dec_value 0 ds) else int (dec_value 0 ds)))"

text \<open>The string a template literal \<^verbatim>\<open>`${x}`\<close> inserts for a number.\<close>

fun number_to_string :: "number \<Rightarrow> string" where
  "number_to_string NaN = ''NaN''"
| "number_to_string (Num i) =
     (if i < 0 then ''-'' @ nat_to_string (nat (- i)) else nat_to_string (nat i))"

fun join_with :: "string \<Rightarrow> string list \<Rightarrow> string" where
  \<comment> \<open>\<^verbatim>\<open>Array.prototype.join\<close> on an array of strings\<close>
  "join_with sep [] = []"
| "join_with sep [x] = x"
| "join_with sep (x # y # ys) = x @ sep @ join_with sep (y # ys)"

subsection \<open>The parsed report document\<close>

text \<open>
  \<^verbatim>\<open>xmlParser.parse\<close> belongs to the library \<^verbatim>\<open>fast-xml-parser\<close>, not to this
  repository. The aggregator is modelled on the value that call returns: a tree of
  objects, arrays and primitive values. An object is an association list from property
  names to values; a property that is not there reads as \<^verbatim>\<open>undefined\<close>.
\<close>

datatype jsval =
    Undefined
  | Null
  | Boolv bool
  | Numv int
  | Str string
  | Arr "jsval list"
  | Obj "(string \<times> jsval) list"

datatype exn = TypeError | ReferenceError | IOError

text \<open>
  Reading a property \<^verbatim>\<open>v[k]\<close> or \<^verbatim>\<open>v.k\<close>. On \<^verbatim>\<open>undefined\<close> and \<^verbatim>\<open>null\<close> it throws
  a TypeError. The script reads only the names \<^verbatim>\<open>testsuites\<close>, \<^verbatim>\<open>testsuite\<close>,
  \<^verbatim>\<open>@_tests\<close>, \<^verbatim>\<open>@_failures\<close>, \<^verbatim>\<open>@_errors\<close> and \<^verbatim>\<open>@_skipped\<close>, none of which
  is a property of a string, a number, a boolean or an array.
\<close>

fun get_prop :: "jsval \<Rightarrow> string \<Rightarrow> exn + jsval" where
  "get_prop Undefined k = Inl TypeError"
| "get_prop Null k = Inl TypeError"
| "get_prop (Obj kvs) k = Inr (case map_of kvs k of None \<Rightarrow> Undefined | Some v \<Rightarrow> v)"
| "get_prop _ k = Inr Undefined"

text \<open>
  The values a \<^verbatim>\<open>for (const ts of v)\<close> loop visits. Arrays and strings are iterable
  (a string yields its characters); anything else throws a TypeError.
\<close>

fun iterate :: "jsval \<Rightarrow> exn + jsval list" where
  "iterate (Arr xs) = Inr xs"
| "iterate (Str s) = Inr (map (\<lambda>c. Str [c]) s)"
| "iterate _ = Inl TypeError"

text \<open>\<^verbatim>\<open>ToString\<close>, which \<^verbatim>\<open>parseInt\<close> applies to its argument.\<close>

fun to_string :: "jsval \<Rightarrow> string" where
  "to_string Undefined = ''undefined''"
| "to_string Null = ''null''"
| "to_string (Boolv b) = (if b then ''true'' else ''false'')"
| "to_string (Numv i) = number_to_string (Num i)"
| "to_string (Str s) = s"
| "to_string (Arr xs) =
     join_with '','' (map (\<lambda>x. if x = Undefined \<or> x = Null then [] else to_string x) xs)"
| "to_string (Obj kvs) = ''[object Object]''"

section \<open>Report Aggregator: \<^verbatim>\<open>getCurrentResults\<close>\<close>

text \<open>
  The record \<^verbatim>\<open>Results\<close>. Its first field is \<^verbatim>\<open>total\<close> in the source; \<open>total\<close> is
  taken in HOL, hence the suffix.
\<close>

record results =
  total_r :: number
  passed :: number
  failed :: number
  skipped :: number

definition attr_int :: "jsval \<Rightarrow> string \<Rightarrow> exn + number" where
  \<comment> \<open>\<^verbatim>\<open>parseInt(ts[k], 10)\<close>\<close>
  "attr_int ts k =
     (case get_prop ts k of Inl e \<Rightarrow> Inl e | Inr v \<Rightarrow> Inr (parseInt (to_string v)))"

text \<open>The body of the loop over the test groups.\<close>

definition add_group :: "results \<Rightarrow> jsval \<Rightarrow> exn + results" where
  "add_group r ts =
     (case attr_int ts ''@_tests'' of Inl e \<Rightarrow> Inl e | Inr tests \<Rightarrow>
     (case attr_int ts ''@_failures'' of Inl e \<Rightarrow> Inl e | Inr failures \<Rightarrow>
     (case attr_int ts ''@_errors'' of Inl e \<Rightarrow> Inl e | Inr errors \<Rightarrow>
     (case attr_int ts ''@_skipped'' of Inl e \<Rightarrow> Inl e | Inr skipped' \<Rightarrow>
        Inr \<lparr> total_r = js_add (total_r r) tests,
              passed = js_add (passed r)
                         (js_sub tests (js_add (js_add failures errors) skipped')),
              failed = js_add (failed r) (js_add failures errors),
              skipped = js_add (skipped r) skipped' \<rparr>))))"

fun aggregate :: "results \<Rightarrow> jsval list \<Rightarrow> exn + results" where
  "aggregate r [] = Inr r"
| "aggregate r (ts # rest) =
     (case add_group r ts of Inl e \<Rightarrow> Inl e | Inr r' \<Rightarrow> aggregate r' rest)"

definition zero_results :: results where
  "zero_results = \<lparr> total_r = Num 0, passed = Num 0, failed = Num 0, skipped = Num 0 \<rparr>"

text \<open>The test groups the loop visits: \<^verbatim>\<open>for (const ts of doc.testsuites.testsuite)\<close>.\<close>

definition report_groups :: "jsval \<Rightarrow> exn + jsval list" where
  "report_groups doc =
     (case get_prop doc ''testsuites'' of Inl e \<Rightarrow> Inl e | Inr tss \<Rightarrow>
     (case get_prop tss ''testsuite'' of Inl e \<Rightarrow> Inl e | Inr coll \<Rightarrow> iterate coll))"

definition getCurrentResults :: "jsval \<Rightarrow> exn + results" where
  "getCurrentResults doc =
     (case report_groups doc of Inl e \<Rightarrow> Inl e | Inr groups \<Rightarrow>
        aggregate zero_results groups)"

section \<open>Reference Extractor: \<^verbatim>\<open>getReferenceResults\<close>\<close>

subsection \<open>The regular expression\<close>

text \<open>
  The pattern of the script is a sequence of literal texts and of capturing groups
  \<^verbatim>\<open>(\d+)\<close> and \<^verbatim>\<open>(\w+)\<close>. A group is greedy: it first takes the longest run of
  characters of its class and gives characters back one at a time, down to one, until the
  rest of the pattern matches (backtracking). \<^verbatim>\<open>[*]\<close> matches the character \<^verbatim>\<open>*\<close>.
\<close>

datatype cls = Digit | Word

datatype atom = Lit string | Group cls

fun in_cls :: "cls \<Rightarrow> char \<Rightarrow> bool" where
  "in_cls Digit c = is_digit c"
| "in_cls Word c = is_word c"

fun strip_prefix :: "string \<Rightarrow> string \<Rightarrow> string option" where
  "strip_prefix [] s = Some s"
| "strip_prefix (c # l) [] = None"
| "strip_prefix (c # l) (d # s) = (if c = d then strip_prefix l s else None)"

text \<open>\<open>first_success f n\<close> tries \<open>f n\<close>, then \<open>f (n - 1)\<close>, down to \<open>f 1\<close>.\<close>

primrec first_success :: "(nat \<Rightarrow> 'a option) \<Rightarrow> nat \<Rightarrow> 'a option" where
  "first_success f 0 = None"
| "first_success f (Suc n) =
     (case f (Suc n) of Some x \<Rightarrow> Some x | None \<Rightarrow> first_success f n)"

text \<open>
  Matching the pattern at the start of a string; the result is the list of the texts
  captured by the groups, in order.
\<close>

primrec match_here :: "atom list \<Rightarrow> string \<Rightarrow> string list option" where
  "match_here [] s = Some []"
| "match_here (a # as) s =
     (case a of
        Lit l \<Rightarrow> (case strip_prefix l s of None \<Rightarrow> None | Some rest \<Rightarrow> match_here as rest)
      | Group c \<Rightarrow>
          first_success
            (\<lambda>n. case match_here as (drop n s) of
                   None \<Rightarrow> None
                 | Some caps \<Rightarrow> Some (take n s # caps))
            (length (takeWhile (in_cls c) s)))"

text \<open>
  \<^verbatim>\<open>regex.exec(text)\<close>. The regular expression literal is evaluated anew in every call
  of \<^verbatim>\<open>getReferenceResults\<close>, so its \<^verbatim>\<open>lastIndex\<close> is 0 and the flag \<^verbatim>\<open>g\<close> has no
  effect: the search tries every start position from the left, the end of the text
  included, and returns the captures of the first position that matches
  (\<^verbatim>\<open>m[1]\<close> is the first element of the list).
\<close>

fun exec :: "atom list \<Rightarrow> string \<Rightarrow> string list option" where
  "exec p [] = match_here p []"
| "exec p (c # s) =
     (case match_here p (c # s) of Some caps \<Rightarrow> Some caps | None \<Rightarrow> exec p s)"

definition regex :: "atom list" where
  "regex =
     [Lit ''**'', Group Digit, Lit ''** tests were completed in **'', Group Word,
      Lit ''ms** with **'', Group Digit, Lit ''** passed, **'', Group Digit,
      Lit ''** failed and **'', Group Digit, Lit ''** skipped'']"

text \<open>The source text of the pattern, as \<^verbatim>\<open>`${regex}`\<close> prints it.\<close>

fun atom_source :: "atom \<Rightarrow> string" where
  "atom_source (Lit l) = concat (map (\<lambda>c. if c = CHR ''*'' then ''[*]'' else [c]) l)"
| "atom_source (Group Digit) = ''('' @ [CHR 0x5C] @ ''d+)''"
| "atom_source (Group Word) = ''('' @ [CHR 0x5C] @ ''w+)''"

definition regex_source :: string where
  "regex_source = ''/'' @ concat (map atom_source regex) @ ''/g''"

subsection \<open>Check runs\<close>

text \<open>
  A check run of the reference branch, as the platform lists it: its name and the
  summary of its output (\<^verbatim>\<open>check.output.summary\<close>), which is a string or \<^verbatim>\<open>null\<close>.
\<close>

record check_run =
  name :: string
  summary :: "string option"

text \<open>
  How the script can end before its last statement: \<^verbatim>\<open>process.exit(code)\<close>, with the
  lines it wrote to the console just before, or an exception that nothing catches.
\<close>

datatype stop = ProcessExit int "string list" | Uncaught exn

definition hex_chr :: "nat \<Rightarrow> char" where
  "hex_chr d = (if d < 10 then char_of (48 + d) else char_of (87 + d))"

definition json_escape :: "char \<Rightarrow> string" where
  "json_escape c =
     (let n = (of_char c :: nat) in
      if n = 0x22 then [CHR 0x5C, CHR 0x22]
      else if n = 0x5C then [CHR 0x5C, CHR 0x5C]
      else if n = 8 then [CHR 0x5C, CHR ''b'']
      else if n = 9 then [CHR 0x5C, CHR ''t'']
      else if n = 10 then [CHR 0x5C, CHR ''n'']
      else if n = 12 then [CHR 0x5C, CHR ''f'']
      else if n = 13 then [CHR 0x5C, CHR ''r'']
      else if n < 32 then [CHR 0x5C] @ ''u00'' @ [hex_chr (n div 16), hex_chr (n mod 16)]
      else [c])"

definition json_stringify :: "string \<Rightarrow> string" where
  \<comment> \<open>\<^verbatim>\<open>JSON.stringify\<close> of a string\<close>
  "json_stringify s = [CHR 0x22] @ concat (map json_escape s) @ [CHR 0x22]"

definition results_of_match :: "string list \<Rightarrow> results" where
  \<comment> \<open>groups 1, 3, 4 and 5 of the match; group 2, the duration, is not read\<close>
  "results_of_match m =
     \<lparr> total_r = parseInt (m ! 0), passed = parseInt (m ! 2),
       failed = parseInt (m ! 3), skipped = parseInt (m ! 4) \<rparr>"

text \<open>
  The guard \<^verbatim>\<open>!check.output.summary\<close> holds for \<^verbatim>\<open>null\<close> and for the empty string;
  \<open>present_summary\<close> is the text that passes it.
\<close>

definition present_summary :: "string option \<Rightarrow> string option" where
  "present_summary s = (case s of None \<Rightarrow> None | Some t \<Rightarrow> if t = [] then None else Some t)"

text \<open>\<^verbatim>\<open>getReferenceResults\<close> of the TypeScript script.\<close>

definition getReferenceResults :: "check_run list \<Rightarrow> string \<Rightarrow> stop + results" where
  "getReferenceResults check_runs checkName =
     (case find (\<lambda>c. name c = checkName) check_runs of
        None \<Rightarrow> Inl (ProcessExit 0 [''No '' @ json_stringify checkName @ '' check found''])
      | Some check \<Rightarrow>
         (case present_summary (summary check) of
            None \<Rightarrow> Inl (ProcessExit 1 [''No summary found for check '' @ checkName])
          | Some text \<Rightarrow>
             (case exec regex text of
                None \<Rightarrow>
                  Inl (ProcessExit 1
                    [''Output summary didn't match expected structure'',
                     ''Structure was: '' @ regex_source,
                     ''Output was:'' @ [CHR 0x0A] @ text])
              | Some m \<Rightarrow> Inr (results_of_match m))))"

text \<open>
  \<^verbatim>\<open>getReferenceResults\<close> of \<^verbatim>\<open>index.mjs\<close>: the result of \<^verbatim>\<open>regex.exec\<close> is used
  unguarded. \<^verbatim>\<open>exec\<close> converts a summary that is \<^verbatim>\<open>null\<close> to the text \<^verbatim>\<open>null\<close>; when
  nothing matches, \<^verbatim>\<open>m\<close> is \<^verbatim>\<open>null\<close> and reading \<^verbatim>\<open>m[1]\<close> throws a TypeError.
\<close>

definition getReferenceResults_mjs :: "check_run list \<Rightarrow> string \<Rightarrow> stop + results" where
  "getReferenceResults_mjs check_runs checkName =
     (case find (\<lambda>c. name c = checkName) check_runs of
        None \<Rightarrow> Inl (ProcessExit 0 [''No '' @ json_stringify checkName @ '' check found''])
      | Some check \<Rightarrow>
         (case exec regex (case summary check of None \<Rightarrow> ''null'' | Some t \<Rightarrow> t) of
            None \<Rightarrow> Inl (Uncaught TypeError)
          | Some m \<Rightarrow> Inr (results_of_match m)))"

subsection \<open>The summary sentence\<close>

text \<open>
  Modelled from the spec: the formatter of the summary sentence. No code of this
  repository writes the sentence; the check run that carries it is created by another
  tool. The spec gives its form as
  \<^verbatim>\<open>**<total>** tests were completed in **<duration>ms** with **<passed>** passed, **<failed>** failed and **<skipped>** skipped\<close>,
  the four counts in decimal and the duration a word token.
\<close>

definition format_summary :: "results \<Rightarrow> string \<Rightarrow> string" where
  "format_summary r duration =
     ''**'' @ number_to_string (total_r r) @ ''** tests were completed in **'' @ duration
       @ ''ms** with **'' @ number_to_string (passed r) @ ''** passed, **''
       @ number_to_string (failed r) @ ''** failed and **'' @ number_to_string (skipped r)
       @ ''** skipped''"

section \<open>Regression Classifier and the loop over the suites\<close>

text \<open>
  The body of the loop after both records are there. The result is the verdict line that
  is pushed to \<^verbatim>\<open>outputLines\<close> and whether \<^verbatim>\<open>regressionsDetected\<close> is set. When none
  of the three comparisons of the \<^verbatim>\<open>else\<close> branch holds, \<^verbatim>\<open>diff\<close> stays \<^verbatim>\<open>undefined\<close>.
\<close>

definition verdict :: "string \<Rightarrow> results \<Rightarrow> results \<Rightarrow> string \<times> bool" where
  "verdict suite current reference =
     (if js_gt (failed current) (failed reference) then
        (''Regression detected in '' @ suite @ '': '' @ number_to_string (failed current)
           @ '' > '' @ number_to_string (failed reference), True)
      else
        (let diff =
           (if js_eq (failed current) (failed reference) then ''unchanged''
            else if js_lt (failed current) (failed reference) then
              ''-'' @ number_to_string (js_sub (failed reference) (failed current))
            else if js_gt (failed current) (failed reference) then
              ''+'' @ number_to_string (js_sub (failed current) (failed reference))
            else ''undefined'')
         in (''No regression in '' @ suite @ '': failed count '' @ diff @ '' (''
               @ number_to_string (passed current) @ '' passed, ''
               @ number_to_string (failed current) @ '' failed)'', False)))"

text \<open>
  In \<^verbatim>\<open>index.mjs\<close> both verdict lines are built from \<^verbatim>\<open>spec.checkName\<close>, and the module
  declares no variable \<^verbatim>\<open>spec\<close> (only a JSDoc type of that name). The comparisons are
  those of the TypeScript script, but whichever branch is taken, evaluating its template
  literal throws a ReferenceError: before the line is pushed, and in the first branch
  before \<^verbatim>\<open>regressionsDetected\<close> is set.
\<close>

definition verdict_mjs :: "string \<Rightarrow> results \<Rightarrow> results \<Rightarrow> exn + string \<times> bool" where
  "verdict_mjs suite current reference =
     (if js_gt (failed current) (failed reference) then Inl ReferenceError
      else Inl ReferenceError)"

text \<open>
  What the script reads from its surroundings: the input \<^verbatim>\<open>suites\<close>, the report files
  (the parsed document at a path, \<open>None\<close> when reading or parsing the file throws), the
  check runs listed for \<^verbatim>\<open>main\<close>, and the number of the pull request, if any.
\<close>

record env =
  suites_input :: string
  read_report :: "string \<Rightarrow> jsval option"
  check_runs :: "check_run list"
  issue_number :: "nat option"

record script_state =
  regressionsDetected :: bool
  outputLines :: "string list"

text \<open>
  The first two statements of the loop body: the current results from the report of the
  suite, then the reference results from the check run of the same name.
\<close>

definition fetch_results :: "env \<Rightarrow> string \<Rightarrow> stop + results \<times> results" where
  "fetch_results e suite =
     (case read_report e (''./'' @ suite @ ''.xml'') of
        None \<Rightarrow> Inl (Uncaught IOError)
      | Some doc \<Rightarrow>
         (case getCurrentResults doc of
            Inl x \<Rightarrow> Inl (Uncaught x)
          | Inr current \<Rightarrow>
             (case getReferenceResults (check_runs e) suite of
                Inl s \<Rightarrow> Inl s
              | Inr reference \<Rightarrow> Inr (current, reference))))"

definition fetch_results_mjs :: "env \<Rightarrow> string \<Rightarrow> stop + results \<times> results" where
  "fetch_results_mjs e suite =
     (case read_report e (''target/h2spec-'' @ suite @ ''.xml'') of
        None \<Rightarrow> Inl (Uncaught IOError)
      | Some doc \<Rightarrow>
         (case getCurrentResults doc of
            Inl x \<Rightarrow> Inl (Uncaught x)
          | Inr current \<Rightarrow>
             (case getReferenceResults_mjs (check_runs e) suite of
                Inl s \<Rightarrow> Inl s
              | Inr reference \<Rightarrow> Inr (current, reference))))"

definition push_verdict :: "script_state \<Rightarrow> string \<times> bool \<Rightarrow> script_state" where
  "push_verdict st v =
     (case v of (line, regression) \<Rightarrow>
        if regression
        then st \<lparr> outputLines := outputLines st @ [line], regressionsDetected := True \<rparr>
        else st \<lparr> outputLines := outputLines st @ [line] \<rparr>)"

definition suite_body :: "env \<Rightarrow> script_state \<Rightarrow> string \<Rightarrow> stop + script_state" where
  "suite_body e st suite =
     (case fetch_results e suite of
        Inl s \<Rightarrow> Inl s
      | Inr (current, reference) \<Rightarrow> Inr (push_verdict st (verdict suite current reference)))"

definition suite_body_mjs :: "env \<Rightarrow> script_state \<Rightarrow> string \<Rightarrow> stop + script_state" where
  "suite_body_mjs e st suite =
     (case fetch_results_mjs e suite of
        Inl s \<Rightarrow> Inl s
      | Inr (current, reference) \<Rightarrow>
         (case verdict_mjs suite current reference of
            Inl x \<Rightarrow> Inl (Uncaught x)
          | Inr v \<Rightarrow> Inr (push_verdict st v)))"

text \<open>The loop \<^verbatim>\<open>for (const suite of suites)\<close>: it ends at the first suite that stops.\<close>

fun suites_loop ::
  "(script_state \<Rightarrow> string \<Rightarrow> stop + script_state) \<Rightarrow> script_state \<Rightarrow> string list
     \<Rightarrow> stop + script_state" where
  "suites_loop body st [] = Inr st"
| "suites_loop body st (suite # rest) =
     (case body st suite of Inl s \<Rightarrow> Inl s | Inr st' \<Rightarrow> suites_loop body st' rest)"

text \<open>\<^verbatim>\<open>String.prototype.split(",")\<close>; the empty string splits into one empty name.\<close>

fun split_comma :: "string \<Rightarrow> string list" where
  "split_comma [] = [[]]"
| "split_comma (c # cs) =
     (if c = CHR '','' then [] # split_comma cs
      else (case split_comma cs of [] \<Rightarrow> [[c]] | w # ws \<Rightarrow> (c # w) # ws))"

definition initial_state :: script_state where
  "initial_state = \<lparr> regressionsDetected = False, outputLines = [] \<rparr>"

section \<open>The whole script\<close>

text \<open>
  What a run leaves behind: the exit code of the process, the lines written with
  \<^verbatim>\<open>console.log\<close>, the body of the comment posted on the pull request, and the
  conclusion and summary of the check \<^verbatim>\<open>h2spec-regression\<close>. An uncaught exception ends
  the process with exit code 1. The calls to the platform are taken to succeed.
\<close>

record outcome =
  exit_code :: int
  console :: "string list"
  comment_body :: "string option"
  check_result :: "(string \<times> string) option"

definition stopped :: "stop \<Rightarrow> outcome" where
  "stopped s =
     (case s of
        ProcessExit code lines \<Rightarrow>
          \<lparr> exit_code = code, console = lines, comment_body = None, check_result = None \<rparr>
      | Uncaught x \<Rightarrow>
          \<lparr> exit_code = 1, console = [], comment_body = None, check_result = None \<rparr>)"

definition comment_step :: "env \<Rightarrow> string \<Rightarrow> string list \<times> string option" where
  \<comment> \<open>the console line and the comment posted, for the joined report text\<close>
  "comment_step e comment =
     (case issue_number e of
        Some n \<Rightarrow> ([''Leaving comment on PR #'' @ nat_to_string n], Some comment)
      | None \<Rightarrow>
          ([''Not a PR, not leaving a comment. Comment would've been:'' @ [CHR 0x0A] @ comment],
           None))"

text \<open>
  The TypeScript script: after the loop it posts the comment, creates the check with its
  conclusion, and only then exits with code 1 when a regression was detected.
\<close>

definition main_ts :: "env \<Rightarrow> outcome" where
  "main_ts e =
     (case suites_loop (suite_body e) initial_state (split_comma (suites_input e)) of
        Inl s \<Rightarrow> stopped s
      | Inr st \<Rightarrow>
         (let comment = join_with [CHR 0x0A] (outputLines st);
              (lines, posted) = comment_step e comment
          in \<lparr> exit_code = (if regressionsDetected st then 1 else 0),
               console = lines,
               comment_body = posted,
               check_result =
                 Some (if regressionsDetected st then ''failure'' else ''success'',
                       join_with [CHR 0x0A] (outputLines st)) \<rparr>))"

text \<open>
  \<^verbatim>\<open>index.mjs\<close>: it exits with code 1 after the loop when a regression was detected,
  before any comment; it creates no check. Its test \<^verbatim>\<open>if (github.context.issue)\<close> is on an
  object that is always there, so the comment is always posted, for a run outside a pull
  request with the number \<^verbatim>\<open>undefined\<close>.
\<close>

definition main_mjs :: "env \<Rightarrow> outcome" where
  "main_mjs e =
     (case suites_loop (suite_body_mjs e) initial_state (split_comma (suites_input e)) of
        Inl s \<Rightarrow> stopped s
      | Inr st \<Rightarrow>
         (if regressionsDetected st then
            \<lparr> exit_code = 1, console = [], comment_body = None, check_result = None \<rparr>
          else
            \<lparr> exit_code = 0,
              console = [''Leaving comment on PR #''
                           @ (case issue_number e of None \<Rightarrow> ''undefined''
                              | Some n \<Rightarrow> nat_to_string n)],
              comment_body = Some (join_with [CHR 0x0A] (outputLines st)),
              check_result = None \<rparr>))"

text \<open>
  The copy of the TypeScript script that follows the README creates the check first and
  updates it after the loop; it has no \<^verbatim>\<open>process.exit(1)\<close> at its end and posts no
  comment. Its loop passes each verdict line to \<^verbatim>\<open>core.error\<close> or \<^verbatim>\<open>core.info\<close> as well;
  those messages are not recorded here.
\<close>

definition main_ts_update :: "env \<Rightarrow> outcome" where
  "main_ts_update e =
     (case suites_loop (suite_body e) initial_state (split_comma (suites_input e)) of
        Inl s \<Rightarrow> stopped s
      | Inr st \<Rightarrow>
          \<lparr> exit_code = 0, console = [], comment_body = None,
            check_result =
              Some (if regressionsDetected st then ''failure'' else ''success'',
                    join_with [CHR 0x0A] (outputLines st)) \<rparr>)"

section \<open>Notions used in the statements\<close>

text \<open>
  A test group is well formed when each of its four attributes parses as a non-negative
  integer and failures, errors and skipped together do not exceed tests; a report is
  well formed when its groups can be visited and all are well formed.
\<close>

definition count_attr :: "jsval \<Rightarrow> string \<Rightarrow> int option" where
  "count_attr ts k =
     (case attr_int ts k of Inr (Num n) \<Rightarrow> if 0 \<le> n then Some n else None | _ \<Rightarrow> None)"

definition well_formed_group :: "jsval \<Rightarrow> bool" where
  "well_formed_group ts =
     (case (count_attr ts ''@_tests'', count_attr ts ''@_failures'',
            count_attr ts ''@_errors'', count_attr ts ''@_skipped'') of
        (Some t, Some f, Some e, Some s) \<Rightarrow> f + e + s \<le> t
      | _ \<Rightarrow> False)"

definition well_formed_report :: "jsval \<Rightarrow> bool" where
  "well_formed_report doc =
     (case report_groups doc of Inl x \<Rightarrow> False | Inr groups \<Rightarrow> list_all well_formed_group groups)"

text \<open>
  The tests a well-formed group counts, and a report whose groups count at most
  \<open>2 ^ 53\<close> tests together.
\<close>

definition group_tests :: "jsval \<Rightarrow> int" where
  "group_tests ts = (case count_attr ts ''@_tests'' of Some t \<Rightarrow> t | None \<Rightarrow> 0)"

definition safe_report :: "jsval \<Rightarrow> bool" where
  "safe_report doc =
     (case report_groups doc of
        Inl x \<Rightarrow> False
      | Inr groups \<Rightarrow> sum_list (map group_tests groups) \<le> 9007199254740992)"

text \<open>
  The counters are non-negative integers, the total is \<open>t\<close> and is the sum of the other
  three.
\<close>

definition balanced :: "results \<Rightarrow> int \<Rightarrow> bool" where
  "balanced r t = (\<exists>p f s. total_r r = Num t \<and> passed r = Num p \<and> failed r = Num f
                     \<and> skipped r = Num s \<and> t = p + f + s \<and> 0 \<le> p \<and> 0 \<le> f \<and> 0 \<le> s)"

text \<open>
  \<open>nan_since r r'\<close>: every counter that is \<^verbatim>\<open>NaN\<close> in \<open>r\<close> is \<^verbatim>\<open>NaN\<close> in \<open>r'\<close>.
  \<open>nan_marks g r\<close>: every counter of \<open>r\<close> that the group \<open>g\<close> feeds with an attribute
  that parses as \<^verbatim>\<open>NaN\<close> is \<^verbatim>\<open>NaN\<close>.
\<close>

definition nan_since :: "results \<Rightarrow> results \<Rightarrow> bool" where
  "nan_since r r' = ((total_r r = NaN \<longrightarrow> total_r r' = NaN) \<and> (passed r = NaN \<longrightarrow> passed r' = NaN)
     \<and> (failed r = NaN \<longrightarrow> failed r' = NaN) \<and> (skipped r = NaN \<longrightarrow> skipped r' = NaN))"

definition nan_marks :: "jsval \<Rightarrow> results \<Rightarrow> bool" where
  "nan_marks g r =
     ((attr_int g ''@_tests'' = Inr NaN \<longrightarrow> total_r r = NaN \<and> passed r = NaN)
      \<and> (attr_int g ''@_failures'' = Inr NaN \<or> attr_int g ''@_errors'' = Inr NaN
           \<longrightarrow> failed r = NaN \<and> passed r = NaN)
      \<and> (attr_int g ''@_skipped'' = Inr NaN \<longrightarrow> skipped r = NaN \<and> passed r = NaN))"

text \<open>
  Whether a suite counts as a regression in a run, and the verdict line it contributes:
  the outcome of the loop body on the two records fetched for it.
\<close>

definition suite_regressed :: "env \<Rightarrow> string \<Rightarrow> bool" where
  "suite_regressed e suite =
     (case fetch_results e suite of
        Inl s \<Rightarrow> False
      | Inr (current, reference) \<Rightarrow> snd (verdict suite current reference))"

definition suite_line :: "env \<Rightarrow> string \<Rightarrow> string" where
  "suite_line e suite =
     (case fetch_results e suite of
        Inl s \<Rightarrow> []
      | Inr (current, reference) \<Rightarrow> fst (verdict suite current reference))"

section \<open>Example inputs\<close>

text \<open>
  A parsed report with the given test groups, each an element with the four attributes
  as strings, and some runs: two suites with their reports and check runs; the same with
  a summary that is no summary sentence; with no check run for the second suite; with a
  check run without summary; a report with a group whose attributes are not all numeric;
  a summary that carries the sentence between other text; a report with more than
  \<open>2 ^ 53\<close> tests; and the document of a report whose root element has no child, for
  which the parser returns the empty string as the value of \<^verbatim>\<open>testsuites\<close>.
\<close>

definition group_node :: "string \<Rightarrow> string \<Rightarrow> string \<Rightarrow> string \<Rightarrow> jsval" where
  "group_node t f e s =
     Obj [(''@_tests'', Str t), (''@_failures'', Str f), (''@_errors'', Str e),
          (''@_skipped'', Str s)]"

definition report_doc :: "jsval list \<Rightarrow> jsval" where
  "report_doc groups = Obj [(''testsuites'', Obj [(''testsuite'', Arr groups)])]"

definition example_report :: "string \<Rightarrow> jsval option" where
  "example_report path =
     (if path = ''./generic.xml'' \<or> path = ''target/h2spec-generic.xml''
        then Some (report_doc [group_node ''90'' ''20'' ''4'' ''0'', group_node ''4'' ''0'' ''0'' ''0''])
      else if path = ''./hpack.xml'' \<or> path = ''target/h2spec-hpack.xml''
        then Some (report_doc [group_node ''2'' ''0'' ''0'' ''0'', group_node ''1'' ''0'' ''0'' ''0''])
      else None)"

definition generic_check :: check_run where
  "generic_check =
     \<lparr> name = ''generic'',
       summary = Some ''**94** tests were completed in **NaNms** with **72** passed, **22** failed and **0** skipped'' \<rparr>"

definition hpack_check :: check_run where
  "hpack_check =
     \<lparr> name = ''hpack'',
       summary = Some ''**3** tests were completed in **12ms** with **3** passed, **0** failed and **0** skipped'' \<rparr>"

definition example_env :: env where
  "example_env =
     \<lparr> suites_input = ''generic,hpack'', read_report = example_report,
       check_runs = [generic_check, hpack_check], issue_number = None \<rparr>"

definition garbled_env :: env where
  "garbled_env =
     \<lparr> suites_input = ''generic,hpack'', read_report = example_report,
       check_runs = [\<lparr> name = ''generic'', summary = Some ''no numbers here'' \<rparr>],
       issue_number = None \<rparr>"

definition first_run_env :: env where
  "first_run_env =
     \<lparr> suites_input = ''generic,hpack'', read_report = example_report,
       check_runs = [generic_check], issue_number = None \<rparr>"

definition no_summary_env :: env where
  "no_summary_env =
     \<lparr> suites_input = ''generic'', read_report = example_report,
       check_runs = [\<lparr> name = ''generic'', summary = None \<rparr>], issue_number = None \<rparr>"

definition malformed_doc :: jsval where
  "malformed_doc =
     report_doc [group_node ''10'' ''1'' ''0'' ''0'',
                 Obj [(''@_tests'', Str ''abc''), (''@_failures'', Str ''2''),
                      (''@_skipped'', Str ''1'')]]"

definition embedded_check :: check_run where
  "embedded_check =
     \<lparr> name = ''generic'',
       summary = Some (''ok: '' @ ''**94** tests were completed in **NaNms** with **70** passed, **24** failed and **0** skipped''
          @ ''; **3** tests were completed in **12ms** with **3** passed, **0** failed and **0** skipped'') \<rparr>"

definition rounding_doc :: jsval where
  "rounding_doc =
     report_doc [group_node ''9007199254740994'' ''1'' ''0'' ''0'',
                 group_node ''0'' ''0'' ''0'' ''0'']"

definition empty_root_doc :: jsval where
  "empty_root_doc = Obj [(''testsuites'', Str [])]"

section \<open>Decimal numerals and \<^verbatim>\<open>parseInt\<close>\<close>

lemma is_digit_digit_chr: "d < 10 \<Longrightarrow> is_digit (digit_chr d)"
  by (simp add: is_digit_def digit_chr_def)

lemma digit_val_digit_chr: "d < 10 \<Longrightarrow> digit_val (digit_chr d) = d"
  by (simp add: digit_val_def digit_chr_def)

lemma nat_to_string_digits: "c \<in> set (nat_to_string n) \<Longrightarrow> is_digit c"
proof (induction n arbitrary: c rule: nat_to_string.induct)
  case (1 n)
  show ?case
  proof (cases "n < 10")
    case True
    with "1.prems" show ?thesis
      by (simp add: nat_to_string.simps [of n] is_digit_digit_chr)
  next
    case False
    with "1.prems" "1.IH" show ?thesis
      by (auto simp: nat_to_string.simps [of n] is_digit_digit_chr)
  qed
qed

lemma nat_to_string_not_Nil: "nat_to_string n \<noteq> []"
  by (subst nat_to_string.simps) simp

lemma dec_value_append: "dec_value acc (xs @ ys) = dec_value (dec_value acc xs) ys"
  by (induction xs arbitrary: acc) simp_all

lemma dec_value_nat_to_string: "dec_value 0 (nat_to_string n) = n"
proof (induction n rule: nat_to_string.induct)
  case (1 n)
  show ?case
  proof (cases "n < 10")
    case True
    then show ?thesis
      by (simp add: nat_to_string.simps [of n] digit_val_digit_chr)
  next
    case False
    with "1.IH" show ?thesis
      by (simp add: nat_to_string.simps [of n] dec_value_append digit_val_digit_chr)
  qed
qed

lemma digit_not_space: "is_digit c \<Longrightarrow> \<not> is_space c"
  by (auto simp: is_digit_def is_space_def Let_def)

lemma digit_not_sign: "is_digit c \<Longrightarrow> c \<noteq> CHR ''-'' \<and> c \<noteq> CHR ''+''"
  by (auto simp: is_digit_def)

lemma parseInt_digits:
  assumes "ds \<noteq> []" and "\<forall>c\<in>set ds. is_digit c"
  shows "parseInt ds = Num (int (dec_value 0 ds))"
proof -
  from assms have c: "is_digit (hd ds)"
    by (cases ds) auto
  have t: "dropWhile is_space ds = ds"
    using c assms(1) by (cases ds) (simp_all add: digit_not_space)
  have u: "takeWhile is_digit ds = ds"
    using assms(2) by (simp add: takeWhile_eq_all_conv)
  show ?thesis
    unfolding parseInt_def t Let_def
    using digit_not_sign [OF c] assms(1) by (simp add: u)
qed

lemma parseInt_nat_to_string: "parseInt (nat_to_string n) = Num (int n)"
  using parseInt_digits [of "nat_to_string n"] nat_to_string_digits nat_to_string_not_Nil
  by (simp add: dec_value_nat_to_string)

lemma nat_to_string_94: "nat_to_string 94 = ''94''" "nat_to_string 70 = ''70''"
  "nat_to_string 24 = ''24''" "nat_to_string 0 = ''0''"
  by code_simp+

section \<open>Rounding\<close>

lemma round_nat64_exact: "n \<le> 9007199254740992 \<Longrightarrow> round_nat64 n = n"
proof (cases "n < 9007199254740992")
  case True
  then show ?thesis by (simp add: round_nat64_def ulp.simps [of n])
next
  case False
  assume "n \<le> 9007199254740992"
  with False have "n = 9007199254740992" by simp
  then show ?thesis by (simp add: round_nat64_def ulp.simps Let_def)
qed

lemma round64_exact: "\<bar>i\<bar> \<le> 9007199254740992 \<Longrightarrow> round64 i = i"
  by (auto simp: round64_def round_nat64_exact)

lemma round64_values:
  "round64 9007199254740994 = 9007199254740994"
  "round64 9007199254740993 = 9007199254740992"
  by (simp_all add: round64_def round_nat64_def ulp.simps Let_def)

section \<open>Matching the summary sentence\<close>

text \<open>The pattern of the model, printed, is the text of the regular expression literal.\<close>

lemma regex_source_text:
  "regex_source =
     ''/[*][*]('' @ [CHR 0x5C] @ ''d+)[*][*] tests were completed in [*][*]('' @ [CHR 0x5C]
       @ ''w+)ms[*][*] with [*][*]('' @ [CHR 0x5C] @ ''d+)[*][*] passed, [*][*]('' @ [CHR 0x5C]
       @ ''d+)[*][*] failed and [*][*]('' @ [CHR 0x5C] @ ''d+)[*][*] skipped/g''"
  by (simp add: regex_source_def regex_def)

lemma strip_prefix_append: "strip_prefix l (l @ r) = Some r"
  by (induction l) simp_all

lemma star_not_digit: "\<not> is_digit CHR ''*''"
  by (simp add: is_digit_def)

lemma star_not_word: "\<not> is_word CHR ''*''"
  by (simp add: is_word_def)

lemma takeWhile_run:
  assumes "\<forall>c\<in>set ds. P c" and "\<not> P x"
  shows "takeWhile P (ds @ x # rest) = ds"
  using assms by (induction ds) simp_all

lemma first_success_eq:
  assumes "0 < k" "k \<le> n" "f k = Some x" "\<forall>j. k < j \<and> j \<le> n \<longrightarrow> f j = None"
  shows "first_success f n = Some x"
  using assms
proof (induction n)
  case 0
  then show ?case by simp
next
  case (Suc n)
  show ?case
  proof (cases "k = Suc n")
    case True
    with Suc.prems show ?thesis by simp
  next
    case False
    with Suc.prems have "k \<le> n" and "f (Suc n) = None" by auto
    with Suc show ?thesis by simp
  qed
qed

lemma match_group:
  assumes "0 < k" "k \<le> length (takeWhile (in_cls c) s)"
    and "match_here as (drop k s) = Some caps"
    and "\<forall>j. k < j \<and> j \<le> length (takeWhile (in_cls c) s) \<longrightarrow> match_here as (drop j s) = None"
  shows "match_here (Group c # as) s = Some (take k s # caps)"
proof -
  let ?f = "\<lambda>n. case match_here as (drop n s) of None \<Rightarrow> None
                  | Some caps \<Rightarrow> Some (take n s # caps)"
  have "first_success ?f (length (takeWhile (in_cls c) s)) = Some (take k s # caps)"
    by (rule first_success_eq [where k = k]) (use assms in auto)
  then show ?thesis by simp
qed

lemma match_lit: "match_here (Lit l # as) (l @ rest) = match_here as rest"
  by (simp add: strip_prefix_append)

lemma match_digits:
  assumes ds: "ds \<noteq> []" "\<forall>c\<in>set ds. is_digit c"
    and rest: "match_here as rest = Some caps"
  shows "match_here (Group Digit # Lit (CHR ''*'' # l) # as) (ds @ CHR ''*'' # l @ rest)
           = Some (ds # caps)"
proof -
  let ?s = "ds @ CHR ''*'' # l @ rest"
  have tw: "takeWhile (in_cls Digit) ?s = ds"
    using takeWhile_run [of ds is_digit "CHR ''*''" "l @ rest"] ds(2) star_not_digit
    by (simp add: in_cls.simps [abs_def])
  have here: "match_here (Lit (CHR ''*'' # l) # as) (drop (length ds) ?s) = Some caps"
    using rest match_lit [of "CHR ''*'' # l" as rest] by simp
  have "match_here (Group Digit # Lit (CHR ''*'' # l) # as) ?s = Some (take (length ds) ?s # caps)"
    by (rule match_group) (use ds(1) here in \<open>simp_all add: tw\<close>)
  then show ?thesis by simp
qed

lemma match_word:
  assumes d: "d \<noteq> []" "\<forall>c\<in>set d. is_word c"
    and rest: "match_here as rest = Some caps"
  shows "match_here (Group Word # Lit (CHR ''m'' # CHR ''s'' # CHR ''*'' # l) # as)
           (d @ CHR ''m'' # CHR ''s'' # CHR ''*'' # l @ rest) = Some (d # caps)"
proof -
  let ?L = "CHR ''m'' # CHR ''s'' # CHR ''*'' # l"
  let ?s = "d @ CHR ''m'' # CHR ''s'' # CHR ''*'' # l @ rest"
  have "\<forall>c\<in>set (d @ ''ms''). is_word c"
    using d(2) by (auto simp: is_word_def)
  then have "takeWhile is_word ((d @ ''ms'') @ CHR ''*'' # l @ rest) = d @ ''ms''"
    using star_not_word by (rule takeWhile_run)
  then have tw: "takeWhile (in_cls Word) ?s = d @ ''ms''"
    by (simp add: in_cls.simps [abs_def])
  have here: "match_here (Lit ?L # as) (drop (length d) ?s) = Some caps"
    using rest match_lit [of ?L as rest] by simp
  have above: "match_here (Lit ?L # as) (drop j ?s) = None"
    if "length d < j" "j \<le> length d + 2" for j
  proof -
    from that have "j = Suc (length d) \<or> j = Suc (Suc (length d))" by arith
    then show ?thesis by auto
  qed
  have "match_here (Group Word # Lit ?L # as) ?s = Some (take (length d) ?s # caps)"
    by (rule match_group) (use d(1) here above in \<open>simp_all add: tw\<close>)
  then show ?thesis by simp
qed

text \<open>The sentence matches where it starts, whatever follows it.\<close>

lemma format_summary_match:
  assumes d: "d \<noteq> []" "\<forall>c\<in>set d. is_word c"
  shows "match_here regex
           (format_summary \<lparr> total_r = Num (int t), passed = Num (int p), failed = Num (int f),
               skipped = Num (int s) \<rparr> d @ post)
         = Some [nat_to_string t, d, nat_to_string p, nat_to_string f, nat_to_string s]"
proof -
  note dg = nat_to_string_not_Nil nat_to_string_digits
  have e: "match_here [] post = Some []" by simp
  have 5: "match_here [Group Digit, Lit ''** skipped''] (nat_to_string s @ ''** skipped'' @ post)
             = Some [nat_to_string s]"
    using match_digits [of "nat_to_string s" "[]" post "[]" "''* skipped''"] dg by simp
  have 4: "match_here [Group Digit, Lit ''** failed and **'', Group Digit, Lit ''** skipped'']
             (nat_to_string f @ ''** failed and **'' @ nat_to_string s @ ''** skipped'' @ post)
             = Some [nat_to_string f, nat_to_string s]"
    using match_digits [OF _ _ 5, of "nat_to_string f" "''* failed and **''"] dg by simp
  have 3: "match_here [Group Digit, Lit ''** passed, **'', Group Digit, Lit ''** failed and **'',
               Group Digit, Lit ''** skipped'']
             (nat_to_string p @ ''** passed, **'' @ nat_to_string f @ ''** failed and **''
                @ nat_to_string s @ ''** skipped'' @ post)
             = Some [nat_to_string p, nat_to_string f, nat_to_string s]"
    using match_digits [OF _ _ 4, of "nat_to_string p" "''* passed, **''"] dg by simp
  have 2: "match_here [Group Word, Lit ''ms** with **'', Group Digit, Lit ''** passed, **'',
               Group Digit, Lit ''** failed and **'', Group Digit, Lit ''** skipped'']
             (d @ ''ms** with **'' @ nat_to_string p @ ''** passed, **'' @ nat_to_string f
                @ ''** failed and **'' @ nat_to_string s @ ''** skipped'' @ post)
             = Some [d, nat_to_string p, nat_to_string f, nat_to_string s]"
    using match_word [OF d 3, of "''* with **''"] by simp
  have 1: "match_here (tl regex)
             (nat_to_string t @ ''** tests were completed in **'' @ d @ ''ms** with **''
                @ nat_to_string p @ ''** passed, **'' @ nat_to_string f
                @ ''** failed and **'' @ nat_to_string s @ ''** skipped'' @ post)
             = Some [nat_to_string t, d, nat_to_string p, nat_to_string f, nat_to_string s]"
    unfolding regex_def list.sel
    using match_digits [OF _ _ 2, of "nat_to_string t" "''* tests were completed in **''"] dg
    by simp
  have "regex = Lit ''**'' # tl regex"
    by (simp add: regex_def)
  then have "match_here regex (''**'' @ x) = match_here (tl regex) x" for x
    using match_lit [of "''**''" "tl regex" x] by simp
  then show ?thesis
    using 1 by (simp add: format_summary_def)
qed

text \<open>\<^verbatim>\<open>exec\<close> returns the match at the leftmost position that has one.\<close>

lemma exec_here: "match_here p s = Some m \<Longrightarrow> exec p s = Some m"
  by (cases s) simp_all

lemma exec_leftmost:
  "exec p s = Some m \<longleftrightarrow>
     (\<exists>i\<le>length s. match_here p (drop i s) = Some m \<and> (\<forall>j<i. match_here p (drop j s) = None))"
proof (induction s)
  case Nil
  then show ?case by simp
next
  case (Cons c s)
  show ?case
  proof (cases "match_here p (c # s)")
    case (Some x)
    have "(\<exists>i\<le>length (c # s). match_here p (drop i (c # s)) = Some m
             \<and> (\<forall>j<i. match_here p (drop j (c # s)) = None)) \<longleftrightarrow> x = m"
    proof
      assume "\<exists>i\<le>length (c # s). match_here p (drop i (c # s)) = Some m
                \<and> (\<forall>j<i. match_here p (drop j (c # s)) = None)"
      then obtain i where i: "match_here p (drop i (c # s)) = Some m"
        "\<forall>j<i. match_here p (drop j (c # s)) = None" by blast
      have "i = 0"
      proof (rule ccontr)
        assume "i \<noteq> 0"
        then have "match_here p (drop 0 (c # s)) = None" using i(2) by blast
        with Some show False by simp
      qed
      with i(1) Some show "x = m" by simp
    next
      assume "x = m"
      with Some have "match_here p (drop 0 (c # s)) = Some m \<and> (\<forall>j<0::nat. match_here p (drop j (c # s)) = None)"
        by simp
      then show "\<exists>i\<le>length (c # s). match_here p (drop i (c # s)) = Some m
                \<and> (\<forall>j<i. match_here p (drop j (c # s)) = None)" by blast
    qed
    with Some show ?thesis by simp
  next
    case None
    have "(\<exists>i\<le>length (c # s). match_here p (drop i (c # s)) = Some m
             \<and> (\<forall>j<i. match_here p (drop j (c # s)) = None))
          \<longleftrightarrow> (\<exists>i\<le>length s. match_here p (drop i s) = Some m
             \<and> (\<forall>j<i. match_here p (drop j s) = None))" (is "?L \<longleftrightarrow> ?R")
    proof
      assume ?L
      then obtain i where i: "i \<le> length (c # s)" "match_here p (drop i (c # s)) = Some m"
        "\<forall>j<i. match_here p (drop j (c # s)) = None" by blast
      from i(2) None obtain k where k: "i = Suc k" by (cases i) auto
      have "\<forall>j<k. match_here p (drop j s) = None"
      proof (intro allI impI)
        fix j assume "j < k"
        then have "Suc j < i" using k by simp
        with i(3) have "match_here p (drop (Suc j) (c # s)) = None" by blast
        then show "match_here p (drop j s) = None" by simp
      qed
      with i(1,2) k show ?R by auto
    next
      assume ?R
      then obtain i where i: "i \<le> length s" "match_here p (drop i s) = Some m"
        "\<forall>j<i. match_here p (drop j s) = None" by blast
      have "\<forall>j<Suc i. match_here p (drop j (c # s)) = None"
      proof (intro allI impI)
        fix j assume j: "j < Suc i"
        show "match_here p (drop j (c # s)) = None"
        proof (cases j)
          case 0
          with None show ?thesis by simp
        next
          case (Suc j')
          with j i(3) show ?thesis by simp
        qed
      qed
      moreover have "Suc i \<le> length (c # s)" "match_here p (drop (Suc i) (c # s)) = Some m"
        using i by simp_all
      ultimately show ?L by blast
    qed
    with None Cons.IH show ?thesis by simp
  qed
qed

lemma exec_succeeds:
  assumes "i \<le> length s" "match_here p (drop i s) = Some m"
  shows "\<exists>m'. exec p s = Some m'"
  using assms
proof (induction s arbitrary: i)
  case Nil
  then show ?case by simp
next
  case (Cons c s)
  show ?case
  proof (cases "match_here p (c # s)")
    case (Some x)
    then show ?thesis by simp
  next
    case None
    with Cons.prems obtain k where "i = Suc k" by (cases i) auto
    with Cons.prems Cons.IH [of k] None show ?thesis by simp
  qed
qed

lemma format_summary_not_Nil: "format_summary r d \<noteq> []"
  by (simp add: format_summary_def)

lemma results_of_match_format:
  "results_of_match [nat_to_string t, d, nat_to_string p, nat_to_string f, nat_to_string s]
     = \<lparr> total_r = Num (int t), passed = Num (int p), failed = Num (int f), skipped = Num (int s) \<rparr>"
  by (simp add: results_of_match_def parseInt_nat_to_string)

lemmas regex_eval = regex_def is_digit_def is_word_def results_of_match_def parseInt_def
  is_space_def digit_val_def present_summary_def

section \<open>Round trip through the summary sentence\<close>

text \<open>
  Claim C4. A record of non-negative integer counts, written as the summary sentence with
  any non-empty word token as duration and read back by \<^verbatim>\<open>getReferenceResults\<close> (of the
  TypeScript script and of \<^verbatim>\<open>index.mjs\<close> alike) from the check run that carries the
  sentence, gives the same total, passed, failed and skipped counts.
\<close>

theorem summary_roundtrip:
  assumes "d \<noteq> []" and "\<forall>c\<in>set d. is_word c"
    and "find (\<lambda>c. name c = checkName) checks = Some check"
    and "summary check = Some (format_summary
           \<lparr> total_r = Num (int t), passed = Num (int p), failed = Num (int f),
             skipped = Num (int s) \<rparr> d)"
  shows "getReferenceResults checks checkName
           = Inr \<lparr> total_r = Num (int t), passed = Num (int p), failed = Num (int f),
                   skipped = Num (int s) \<rparr>
         \<and> getReferenceResults_mjs checks checkName
           = Inr \<lparr> total_r = Num (int t), passed = Num (int p), failed = Num (int f),
                   skipped = Num (int s) \<rparr>"
proof -
  let ?r = "\<lparr> total_r = Num (int t), passed = Num (int p), failed = Num (int f),
             skipped = Num (int s) \<rparr>"
  have "match_here regex (format_summary ?r d)
          = Some [nat_to_string t, d, nat_to_string p, nat_to_string f, nat_to_string s]"
    using format_summary_match [OF assms(1,2), of t p f s "[]"] by simp
  then have "exec regex (format_summary ?r d)
          = Some [nat_to_string t, d, nat_to_string p, nat_to_string f, nat_to_string s]"
    by (rule exec_here)
  then show ?thesis
    using assms(3,4) format_summary_not_Nil [of ?r d]
    by (simp add: getReferenceResults_def getReferenceResults_mjs_def present_summary_def
        results_of_match_format)
qed

text \<open>
  The example of the source comment: 94 tests, duration \<^verbatim>\<open>NaN\<close>, 70 passed, 24 failed,
  0 skipped.
\<close>

theorem summary_roundtrip_witness:
  "getReferenceResults
     [\<lparr> name = ''h2spec'',
        summary = Some ''**94** tests were completed in **NaNms** with **70** passed, **24** failed and **0** skipped'' \<rparr>]
     ''h2spec''
   = Inr \<lparr> total_r = Num 94, passed = Num 70, failed = Num 24, skipped = Num 0 \<rparr>"
  using summary_roundtrip [of "''NaN''" "''h2spec''"
      "[\<lparr> name = ''h2spec'', summary = Some ''**94** tests were completed in **NaNms** with **70** passed, **24** failed and **0** skipped'' \<rparr>]"
      "\<lparr> name = ''h2spec'', summary = Some ''**94** tests were completed in **NaNms** with **70** passed, **24** failed and **0** skipped'' \<rparr>"
      94 70 24 0]
  by (simp add: format_summary_def nat_to_string_94 is_word_def)

section \<open>Unanchored search\<close>

text \<open>
  Claim C10. When the summary contains the summary sentence with any text before and
  after it, both extractors succeed; the counts they return are those captured at the
  leftmost position of the summary where the pattern matches, a position that is not
  after the start of the sentence; and when the pattern matches nowhere before the
  sentence, they are the counts of the sentence, whatever follows it.
\<close>

theorem unanchored_search:
  assumes "d \<noteq> []" and "\<forall>c\<in>set d. is_word c"
    and "find (\<lambda>c. name c = checkName) checks = Some check"
    and "summary check = Some (before @ format_summary
           \<lparr> total_r = Num (int t), passed = Num (int p), failed = Num (int f),
             skipped = Num (int s) \<rparr> d @ after)"
  shows "(\<exists>i m. i \<le> length before
            \<and> match_here regex (drop i (the (summary check))) = Some m
            \<and> (\<forall>j<i. match_here regex (drop j (the (summary check))) = None)
            \<and> getReferenceResults checks checkName = Inr (results_of_match m)
            \<and> getReferenceResults_mjs checks checkName = Inr (results_of_match m))
       \<and> ((\<forall>j<length before. match_here regex (drop j (the (summary check))) = None)
            \<longrightarrow> getReferenceResults checks checkName
                  = Inr \<lparr> total_r = Num (int t), passed = Num (int p), failed = Num (int f),
                          skipped = Num (int s) \<rparr>
              \<and> getReferenceResults_mjs checks checkName
                  = Inr \<lparr> total_r = Num (int t), passed = Num (int p), failed = Num (int f),
                          skipped = Num (int s) \<rparr>)"
proof -
  let ?r = "\<lparr> total_r = Num (int t), passed = Num (int p), failed = Num (int f),
             skipped = Num (int s) \<rparr>"
  let ?caps = "[nat_to_string t, d, nat_to_string p, nat_to_string f, nat_to_string s]"
  define body where "body = before @ format_summary ?r d @ after"
  have sm: "summary check = Some body" "the (summary check) = body"
    using assms(4) by (simp_all add: body_def)
  have ne: "body \<noteq> []"
    by (simp add: body_def format_summary_def)
  have at: "match_here regex (drop (length before) body) = Some ?caps"
    using format_summary_match [OF assms(1,2), of t p f s after] by (simp add: body_def)
  have le: "length before \<le> length body"
    by (simp add: body_def)
  from exec_succeeds [OF le at] obtain m where m: "exec regex body = Some m" by blast
  then obtain i where i: "i \<le> length body" "match_here regex (drop i body) = Some m"
    "\<forall>j<i. match_here regex (drop j body) = None"
    unfolding exec_leftmost by blast
  have ib: "i \<le> length before"
  proof (rule ccontr)
    assume "\<not> i \<le> length before"
    then have "length before < i" by simp
    with i(3) at show False by simp
  qed
  have g: "getReferenceResults checks checkName = Inr (results_of_match m)"
    using assms(3) sm(1) ne m by (simp add: getReferenceResults_def present_summary_def)
  have g': "getReferenceResults_mjs checks checkName = Inr (results_of_match m)"
    using assms(3) sm(1) m by (simp add: getReferenceResults_mjs_def)
  have first: "getReferenceResults checks checkName = Inr ?r
                 \<and> getReferenceResults_mjs checks checkName = Inr ?r"
    if none: "\<forall>j<length before. match_here regex (drop j body) = None"
  proof -
    have "i = length before"
    proof (rule ccontr)
      assume "i \<noteq> length before"
      with ib have "i < length before" by simp
      with none i(2) show False by simp
    qed
    with i(2) at have "m = ?caps" by simp
    with g g' show ?thesis by (simp add: results_of_match_format)
  qed
  from ib i(2,3) g g' first show ?thesis
    unfolding sm(2) by blast
qed

text \<open>
  The sentence after a prefix and before a second sentence: the counts are those of the
  first.
\<close>

theorem unanchored_search_witness:
  "length ''ok: '' = 4
   \<and> match_here regex (drop 0 (the (summary embedded_check))) = None
   \<and> match_here regex (drop 1 (the (summary embedded_check))) = None
   \<and> match_here regex (drop 2 (the (summary embedded_check))) = None
   \<and> match_here regex (drop 3 (the (summary embedded_check))) = None
   \<and> getReferenceResults [embedded_check] ''generic''
       = Inr \<lparr> total_r = Num 94, passed = Num 70, failed = Num 24, skipped = Num 0 \<rparr>
   \<and> getReferenceResults_mjs [embedded_check] ''generic''
       = Inr \<lparr> total_r = Num 94, passed = Num 70, failed = Num 24, skipped = Num 0 \<rparr>"
proof -
  have w: "''NaN'' \<noteq> []" "\<forall>c\<in>set ''NaN''. is_word c"
    by (simp_all add: is_word_def)
  have f: "find (\<lambda>c. name c = ''generic'') [embedded_check] = Some embedded_check"
    by (simp add: embedded_check_def)
  have s: "summary embedded_check = Some (''ok: '' @ format_summary
           \<lparr> total_r = Num (int 94), passed = Num (int 70), failed = Num (int 24),
             skipped = Num (int 0) \<rparr> ''NaN''
           @ ''; **3** tests were completed in **12ms** with **3** passed, **0** failed and **0** skipped'')"
    by (simp add: embedded_check_def format_summary_def nat_to_string_94)
  have n: "\<forall>j<length ''ok: ''. match_here regex (drop j (the (summary embedded_check))) = None"
    by (simp add: embedded_check_def All_less_Suc regex_def)
  have e: "match_here regex (drop 0 (the (summary embedded_check))) = None"
    "match_here regex (drop 1 (the (summary embedded_check))) = None"
    "match_here regex (drop 2 (the (summary embedded_check))) = None"
    "match_here regex (drop 3 (the (summary embedded_check))) = None"
    by (simp_all add: embedded_check_def regex_def)
  from unanchored_search [OF w f s] n e show ?thesis by simp
qed

section \<open>The regression verdict\<close>

lemma snd_verdict: "snd (verdict suite current reference) = js_gt (failed current) (failed reference)"
  by (simp add: verdict_def Let_def)

lemma js_gt_iff: "js_gt x y \<longleftrightarrow> (\<exists>a b. x = Num a \<and> y = Num b \<and> b < a)"
  by (cases x; cases y) auto

text \<open>
  Claim C1. The loop body flags a regression exactly when the current count of failures
  is a number strictly greater than the reference count, both being numbers; equal counts
  are never flagged; and for a fixed reference a larger current count keeps a regression
  verdict.
\<close>

theorem regression_threshold:
  "(snd (verdict suite current reference) \<longleftrightarrow>
      (\<exists>a b. failed current = Num a \<and> failed reference = Num b \<and> b < a))
   \<and> (failed current = failed reference \<longrightarrow> \<not> snd (verdict suite current reference))
   \<and> (\<forall>a a'. failed current = Num a \<and> failed current' = Num a' \<and> a \<le> a'
          \<and> snd (verdict suite current reference)
        \<longrightarrow> snd (verdict suite current' reference))"
  by (auto simp: snd_verdict js_gt_iff)

text \<open>24 against 22 is flagged, 22 against 22 is not, 25 against 22 still is.\<close>

theorem regression_threshold_witness:
  "snd (verdict ''h2spec''
          \<lparr> total_r = Num 94, passed = Num 70, failed = Num 24, skipped = Num 0 \<rparr>
          \<lparr> total_r = Num 94, passed = Num 72, failed = Num 22, skipped = Num 0 \<rparr>)
   \<and> \<not> snd (verdict ''h2spec''
          \<lparr> total_r = Num 94, passed = Num 72, failed = Num 22, skipped = Num 0 \<rparr>
          \<lparr> total_r = Num 94, passed = Num 72, failed = Num 22, skipped = Num 0 \<rparr>)
   \<and> snd (verdict ''h2spec''
          \<lparr> total_r = Num 94, passed = Num 69, failed = Num 25, skipped = Num 0 \<rparr>
          \<lparr> total_r = Num 94, passed = Num 72, failed = Num 22, skipped = Num 0 \<rparr>)"
  using regression_threshold [of "''h2spec''"
      "\<lparr> total_r = Num 94, passed = Num 70, failed = Num 24, skipped = Num 0 \<rparr>"
      "\<lparr> total_r = Num 94, passed = Num 72, failed = Num 22, skipped = Num 0 \<rparr>"
      "\<lparr> total_r = Num 94, passed = Num 69, failed = Num 25, skipped = Num 0 \<rparr>"]
    regression_threshold [of "''h2spec''"
      "\<lparr> total_r = Num 94, passed = Num 72, failed = Num 22, skipped = Num 0 \<rparr>"
      "\<lparr> total_r = Num 94, passed = Num 72, failed = Num 22, skipped = Num 0 \<rparr>"]
  by simp

text \<open>
  The verdict lines of the TypeScript script for integer counts, and the examples of the
  specification. A current count that is \<^verbatim>\<open>NaN\<close> compares false three times and leaves
  \<^verbatim>\<open>diff\<close> undefined.
\<close>

lemma verdict_lines:
  assumes "failed current = Num a" "failed reference = Num b"
  shows "verdict suite current reference =
           (if b < a then
              (''Regression detected in '' @ suite @ '': '' @ number_to_string (Num a) @ '' > ''
                 @ number_to_string (Num b), True)
            else
              (''No regression in '' @ suite @ '': failed count ''
                 @ (if a = b then ''unchanged''
                    else ''-'' @ number_to_string (js_sub (Num b) (Num a)))
                 @ '' ('' @ number_to_string (passed current) @ '' passed, ''
                 @ number_to_string (Num a) @ '' failed)'', False))"
  using assms by (simp add: verdict_def)

lemma nat_to_string_values:
  "nat_to_string 2 = ''2''" "nat_to_string 20 = ''20''" "nat_to_string 22 = ''22''"
  "nat_to_string 24 = ''24''" "nat_to_string 72 = ''72''" "nat_to_string 74 = ''74''"
  "nat_to_string 70 = ''70''"
  by code_simp+

lemma verdict_examples:
  "verdict ''h2spec'' \<lparr> total_r = Num 94, passed = Num 70, failed = Num 24, skipped = Num 0 \<rparr>
      \<lparr> total_r = Num 94, passed = Num 72, failed = Num 22, skipped = Num 0 \<rparr>
     = (''Regression detected in h2spec: 24 > 22'', True)"
  "verdict ''h2spec'' \<lparr> total_r = Num 94, passed = Num 74, failed = Num 20, skipped = Num 0 \<rparr>
      \<lparr> total_r = Num 94, passed = Num 72, failed = Num 22, skipped = Num 0 \<rparr>
     = (''No regression in h2spec: failed count -2 (74 passed, 20 failed)'', False)"
  "verdict ''h2spec'' \<lparr> total_r = Num 94, passed = Num 72, failed = Num 22, skipped = Num 0 \<rparr>
      \<lparr> total_r = Num 94, passed = Num 72, failed = Num 22, skipped = Num 0 \<rparr>
     = (''No regression in h2spec: failed count unchanged (72 passed, 22 failed)'', False)"
  by (simp_all add: verdict_def round64_exact nat_to_string_values)

lemma verdict_nan:
  "verdict ''h2spec'' \<lparr> total_r = NaN, passed = NaN, failed = NaN, skipped = Num 0 \<rparr>
      \<lparr> total_r = Num 94, passed = Num 72, failed = Num 22, skipped = Num 0 \<rparr>
     = (''No regression in h2spec: failed count undefined (NaN passed, NaN failed)'', False)"
  by (simp add: verdict_def)

section \<open>The aggregator\<close>

lemmas eval_defs = report_doc_def group_node_def report_groups_def getCurrentResults_def
  add_group_def attr_int_def parseInt_def is_space_def is_digit_def digit_val_def
  zero_results_def well_formed_report_def well_formed_group_def count_attr_def
  round64_exact group_tests_def safe_report_def

lemma count_attr_Some: "count_attr ts k = Some n \<Longrightarrow> attr_int ts k = Inr (Num n) \<and> 0 \<le> n"
  by (auto simp: count_attr_def split: sum.splits number.splits if_splits)

lemma group_tests_nonneg: "0 \<le> group_tests g"
  using count_attr_Some [of g "''@_tests''"]
  by (auto simp: group_tests_def split: option.splits)

lemma add_group_balanced:
  assumes "balanced r t" "well_formed_group g" "t + group_tests g \<le> 9007199254740992"
  shows "\<exists>r'. add_group r g = Inr r' \<and> balanced r' (t + group_tests g)"
proof -
  from assms(2) obtain tg fg eg sg where
    c: "count_attr g ''@_tests'' = Some tg" "count_attr g ''@_failures'' = Some fg"
       "count_attr g ''@_errors'' = Some eg" "count_attr g ''@_skipped'' = Some sg"
    and le: "fg + eg + sg \<le> tg"
    by (auto simp: well_formed_group_def split: option.splits)
  from c have a: "attr_int g ''@_tests'' = Inr (Num tg)" "attr_int g ''@_failures'' = Inr (Num fg)"
    "attr_int g ''@_errors'' = Inr (Num eg)" "attr_int g ''@_skipped'' = Inr (Num sg)"
    and nn: "0 \<le> tg" "0 \<le> fg" "0 \<le> eg" "0 \<le> sg"
    using count_attr_Some by blast+
  from c(1) have gt: "group_tests g = tg"
    by (simp add: group_tests_def)
  from assms(1) obtain p f s where
    r: "total_r r = Num t" "passed r = Num p" "failed r = Num f" "skipped r = Num s"
    and b: "t = p + f + s" "0 \<le> p" "0 \<le> f" "0 \<le> s"
    by (auto simp: balanced_def)
  from assms(3) gt have bound: "t + tg \<le> 9007199254740992" by simp
  have e1: "round64 (t + tg) = t + tg"
    using bound b nn by (intro round64_exact) simp
  have e2: "round64 (fg + eg) = fg + eg"
    using bound b nn le by (intro round64_exact) simp
  have e3: "round64 (fg + eg + sg) = fg + eg + sg"
    using bound b nn le by (intro round64_exact) simp
  have e4: "round64 (tg - (fg + eg + sg)) = tg - (fg + eg + sg)"
    using bound b nn le by (intro round64_exact) simp
  have e5: "round64 (p + (tg - (fg + eg + sg))) = p + (tg - (fg + eg + sg))"
    using bound b nn le by (intro round64_exact) simp
  have e6: "round64 (f + (fg + eg)) = f + (fg + eg)"
    using bound b nn le by (intro round64_exact) simp
  have e7: "round64 (s + sg) = s + sg"
    using bound b nn le by (intro round64_exact) simp
  have "add_group r g =
          Inr \<lparr> total_r = Num (t + tg), passed = Num (p + (tg - (fg + eg + sg))),
                failed = Num (f + (fg + eg)), skipped = Num (s + sg) \<rparr>"
    by (simp add: add_group_def a r e1 e2 e3 e4 e5 e6 e7)
  moreover have "balanced \<lparr> total_r = Num (t + tg), passed = Num (p + (tg - (fg + eg + sg))),
                failed = Num (f + (fg + eg)), skipped = Num (s + sg) \<rparr> (t + tg)"
    using b nn le by (simp add: balanced_def)
  ultimately show ?thesis
    using gt by simp
qed

lemma aggregate_balanced:
  assumes "balanced r t" "list_all well_formed_group gs"
    and "t + sum_list (map group_tests gs) \<le> 9007199254740992"
  shows "\<exists>r'. aggregate r gs = Inr r' \<and> balanced r' (t + sum_list (map group_tests gs))"
  using assms
proof (induction gs arbitrary: r t)
  case Nil
  then show ?case by simp
next
  case (Cons g gs)
  have "0 \<le> sum_list (map group_tests gs)"
    by (rule sum_list_nonneg) (auto simp: group_tests_nonneg)
  with Cons.prems(3) have "t + group_tests g \<le> 9007199254740992" by simp
  with Cons.prems add_group_balanced [of r t g] obtain r1 where
    r1: "add_group r g = Inr r1" "balanced r1 (t + group_tests g)" by auto
  from Cons.IH [OF r1(2)] Cons.prems(2,3) obtain r2 where
    "aggregate r1 gs = Inr r2"
    "balanced r2 (t + group_tests g + sum_list (map group_tests gs))"
    by (auto simp: add.assoc)
  with r1(1) show ?case by (simp add: add.assoc)
qed

lemma balanced_zero: "balanced zero_results 0"
  by (simp add: balanced_def zero_results_def)

text \<open>
  Claim C2, as the script behaves. For a well-formed report whose groups count at most
  \<open>2 ^ 53\<close> tests together, the aggregator returns a record, and in it
  \<^verbatim>\<open>total == passed + failed + skipped\<close>.
\<close>

theorem aggregator_invariant:
  assumes "well_formed_report doc" and "safe_report doc"
  shows "\<exists>r. getCurrentResults doc = Inr r
           \<and> js_eq (total_r r) (js_add (js_add (passed r) (failed r)) (skipped r))"
proof -
  from assms obtain gs where gs: "report_groups doc = Inr gs" "list_all well_formed_group gs"
    and bound: "sum_list (map group_tests gs) \<le> 9007199254740992"
    by (auto simp: well_formed_report_def safe_report_def split: sum.splits)
  from aggregate_balanced [OF balanced_zero gs(2)] bound obtain r where
    r: "aggregate zero_results gs = Inr r" "balanced r (sum_list (map group_tests gs))"
    by auto
  from r(2) obtain p f s where
    v: "total_r r = Num (p + f + s)" "passed r = Num p" "failed r = Num f" "skipped r = Num s"
    and b: "0 \<le> p" "0 \<le> f" "0 \<le> s" "sum_list (map group_tests gs) = p + f + s"
    by (auto simp: balanced_def)
  have e1: "round64 (p + f) = p + f"
    using b bound by (intro round64_exact) simp
  have e2: "round64 (p + f + s) = p + f + s"
    using b bound by (intro round64_exact) simp
  have "js_eq (total_r r) (js_add (js_add (passed r) (failed r)) (skipped r))"
    by (simp add: v e1 e2)
  with r(1) gs(1) show ?thesis
    by (simp add: getCurrentResults_def)
qed

text \<open>Two groups, 10 tests with 2 failures, 1 error and 1 skipped, and 4 tests all skipped.\<close>

theorem aggregator_invariant_witness:
  "well_formed_report (report_doc [group_node ''10'' ''2'' ''1'' ''1'', group_node ''4'' ''0'' ''0'' ''4''])
   \<and> safe_report (report_doc [group_node ''10'' ''2'' ''1'' ''1'', group_node ''4'' ''0'' ''0'' ''4''])
   \<and> (\<exists>r. getCurrentResults
             (report_doc [group_node ''10'' ''2'' ''1'' ''1'', group_node ''4'' ''0'' ''0'' ''4'']) = Inr r
          \<and> js_eq (total_r r) (js_add (js_add (passed r) (failed r)) (skipped r)))"
proof -
  have h: "well_formed_report
             (report_doc [group_node ''10'' ''2'' ''1'' ''1'', group_node ''4'' ''0'' ''0'' ''4''])"
    by (simp add: eval_defs)
  have b: "safe_report
             (report_doc [group_node ''10'' ''2'' ''1'' ''1'', group_node ''4'' ''0'' ''0'' ''4''])"
    by (simp add: eval_defs)
  from aggregator_invariant [OF h b] h b show ?thesis by simp
qed

lemma example_value:
  "getCurrentResults (report_doc [group_node ''10'' ''2'' ''1'' ''1'', group_node ''4'' ''0'' ''0'' ''4''])
     = Inr \<lparr> total_r = Num 14, passed = Num 6, failed = Num 3, skipped = Num 5 \<rparr>"
  by (simp add: eval_defs)

text \<open>
  Above \<open>2 ^ 53\<close> the subtraction that derives the passed tests rounds. A well-formed
  report with a group of 9007199254740994 tests, one of them failed, gives 9007199254740992
  passed tests, and passed, failed and skipped add up to 9007199254740992, which is not
  the total.
\<close>

theorem aggregator_invariant_rounds:
  "well_formed_report rounding_doc
   \<and> getCurrentResults rounding_doc
       = Inr \<lparr> total_r = Num 9007199254740994, passed = Num 9007199254740992,
               failed = Num 1, skipped = Num 0 \<rparr>
   \<and> js_add (js_add (Num 9007199254740992) (Num 1)) (Num 0) = Num 9007199254740992
   \<and> \<not> js_eq (Num 9007199254740994) (Num 9007199254740992)"
proof -
  have w: "well_formed_report rounding_doc"
    by (simp add: rounding_doc_def eval_defs)
  have g: "getCurrentResults rounding_doc
       = Inr \<lparr> total_r = Num 9007199254740994, passed = Num 9007199254740992,
               failed = Num 1, skipped = Num 0 \<rparr>"
    by (simp add: rounding_doc_def eval_defs round64_values)
  have s: "js_add (js_add (Num 9007199254740992) (Num 1)) (Num 0) = Num 9007199254740992"
    by (simp add: round64_values round64_exact)
  from w g s show ?thesis by simp
qed

text \<open>
  Claim C6. For the report without test group the value of \<^verbatim>\<open>testsuites\<close> has no property
  \<^verbatim>\<open>testsuite\<close>; the loop is over \<^verbatim>\<open>undefined\<close> and throws a TypeError, and the aggregator
  returns no record.
\<close>

theorem empty_root_throws:
  "report_groups empty_root_doc = Inl TypeError
   \<and> getCurrentResults empty_root_doc = Inl TypeError"
  by (simp add: empty_root_doc_def getCurrentResults_def report_groups_def)

text \<open>
  The record of four zeros is what the aggregator returns when the loop has something to
  iterate that yields no element. A report with exactly one test group, which the parser
  returns as a single object instead of an array, makes the loop throw as well.
\<close>

lemma no_group_visited:
  assumes "report_groups doc = Inr []"
  shows "getCurrentResults doc
           = Inr \<lparr> total_r = Num 0, passed = Num 0, failed = Num 0, skipped = Num 0 \<rparr>"
  using assms by (simp add: getCurrentResults_def zero_results_def)

lemma single_group_object_throws:
  "getCurrentResults (Obj [(''testsuites'', Obj [(''testsuite'', group_node ''1'' ''0'' ''0'' ''0'')])])
     = Inl TypeError"
  by (simp add: getCurrentResults_def report_groups_def group_node_def)

text \<open>
  \<^verbatim>\<open>parseInt\<close> does not fail on an attribute that is missing or not numeric: it returns
  \<^verbatim>\<open>NaN\<close>, which every later addition keeps.
\<close>

lemma js_add_NaN_right: "js_add x NaN = NaN"
  by (cases x) simp_all

lemma js_sub_NaN_right: "js_sub x NaN = NaN"
  by (cases x) simp_all

lemma get_prop_defined: "g \<noteq> Undefined \<Longrightarrow> g \<noteq> Null \<Longrightarrow> \<exists>v. get_prop g k = Inr v"
  by (cases g) simp_all

lemma attr_int_defined: "g \<noteq> Undefined \<Longrightarrow> g \<noteq> Null \<Longrightarrow> \<exists>n. attr_int g k = Inr n"
  using get_prop_defined [of g k] by (auto simp: attr_int_def)

lemma add_group_defined:
  assumes "g \<noteq> Undefined" "g \<noteq> Null"
  shows "\<exists>t f e s. attr_int g ''@_tests'' = Inr t \<and> attr_int g ''@_failures'' = Inr f
           \<and> attr_int g ''@_errors'' = Inr e \<and> attr_int g ''@_skipped'' = Inr s
           \<and> add_group r g =
               Inr \<lparr> total_r = js_add (total_r r) t,
                     passed = js_add (passed r) (js_sub t (js_add (js_add f e) s)),
                     failed = js_add (failed r) (js_add f e),
                     skipped = js_add (skipped r) s \<rparr>"
proof -
  from attr_int_defined [OF assms] obtain t f e s where
    "attr_int g ''@_tests'' = Inr t" "attr_int g ''@_failures'' = Inr f"
    "attr_int g ''@_errors'' = Inr e" "attr_int g ''@_skipped'' = Inr s"
    by metis
  then show ?thesis by (simp add: add_group_def)
qed

lemma add_group_nan:
  assumes "g \<noteq> Undefined" "g \<noteq> Null"
  shows "\<exists>r'. add_group r g = Inr r' \<and> nan_since r r' \<and> nan_marks g r'"
proof -
  from add_group_defined [OF assms, of r] obtain t f e s where
    a: "attr_int g ''@_tests'' = Inr t" "attr_int g ''@_failures'' = Inr f"
       "attr_int g ''@_errors'' = Inr e" "attr_int g ''@_skipped'' = Inr s"
    and r': "add_group r g =
               Inr \<lparr> total_r = js_add (total_r r) t,
                     passed = js_add (passed r) (js_sub t (js_add (js_add f e) s)),
                     failed = js_add (failed r) (js_add f e),
                     skipped = js_add (skipped r) s \<rparr>"
    by blast
  show ?thesis
    unfolding r' nan_since_def nan_marks_def a
    by (auto simp: js_add_NaN_right js_sub_NaN_right)
qed

lemma nan_since_marks: "nan_since r r' \<Longrightarrow> nan_marks g r \<Longrightarrow> nan_marks g r'"
  by (auto simp: nan_since_def nan_marks_def)

lemma nan_since_trans: "nan_since r r' \<Longrightarrow> nan_since r' r'' \<Longrightarrow> nan_since r r''"
  by (auto simp: nan_since_def)

lemma aggregate_nan:
  assumes "\<forall>g\<in>set gs. g \<noteq> Undefined \<and> g \<noteq> Null"
  shows "\<exists>r'. aggregate r gs = Inr r' \<and> nan_since r r' \<and> (\<forall>g\<in>set gs. nan_marks g r')"
  using assms
proof (induction gs arbitrary: r)
  case Nil
  then show ?case by (simp add: nan_since_def)
next
  case (Cons g gs)
  from Cons.prems add_group_nan [of g r] obtain r1 where
    r1: "add_group r g = Inr r1" "nan_since r r1" "nan_marks g r1" by auto
  from Cons.IH [of r1] Cons.prems obtain r2 where
    r2: "aggregate r1 gs = Inr r2" "nan_since r1 r2" "\<forall>g\<in>set gs. nan_marks g r2" by auto
  from r1 r2 have "aggregate r (g # gs) = Inr r2" by simp
  moreover from r1(2) r2(2) have "nan_since r r2" by (rule nan_since_trans)
  moreover from r2(2) r1(3) have "nan_marks g r2" by (rule nan_since_marks)
  ultimately show ?case using r2(3) by auto
qed

text \<open>
  Claim C8, as the script behaves. For a report whose test groups can be visited and are
  elements (none is \<^verbatim>\<open>undefined\<close> or \<^verbatim>\<open>null\<close>), the aggregator does not fail, whatever
  the attributes are: it returns a record, in which every counter fed by an attribute
  that parses as \<^verbatim>\<open>NaN\<close> is \<^verbatim>\<open>NaN\<close>: total and passed for \<^verbatim>\<open>tests\<close>, failed and passed for
  \<^verbatim>\<open>failures\<close> and \<^verbatim>\<open>errors\<close>, skipped and passed for \<^verbatim>\<open>skipped\<close>.
\<close>

theorem aggregator_returns_nan:
  assumes "report_groups doc = Inr groups"
    and "\<forall>g\<in>set groups. g \<noteq> Undefined \<and> g \<noteq> Null"
  shows "\<exists>r. getCurrentResults doc = Inr r
          \<and> (\<forall>g\<in>set groups.
               (attr_int g ''@_tests'' = Inr NaN \<longrightarrow> total_r r = NaN \<and> passed r = NaN)
             \<and> (attr_int g ''@_failures'' = Inr NaN \<or> attr_int g ''@_errors'' = Inr NaN
                  \<longrightarrow> failed r = NaN \<and> passed r = NaN)
             \<and> (attr_int g ''@_skipped'' = Inr NaN \<longrightarrow> skipped r = NaN \<and> passed r = NaN))"
proof -
  from aggregate_nan [OF assms(2), of zero_results] obtain r where
    r: "aggregate zero_results groups = Inr r" "\<forall>g\<in>set groups. nan_marks g r" by blast
  from r(1) assms(1) have "getCurrentResults doc = Inr r"
    by (simp add: getCurrentResults_def)
  with r(2) show ?thesis
    unfolding nan_marks_def by blast
qed

text \<open>A group with \<^verbatim>\<open>tests="abc"\<close> and no \<^verbatim>\<open>errors\<close> attribute after a numeric group.\<close>

theorem aggregator_returns_nan_witness:
  "report_groups malformed_doc
     = Inr [group_node ''10'' ''1'' ''0'' ''0'',
            Obj [(''@_tests'', Str ''abc''), (''@_failures'', Str ''2''), (''@_skipped'', Str ''1'')]]
   \<and> (\<exists>r. getCurrentResults malformed_doc = Inr r \<and> total_r r = NaN \<and> passed r = NaN
          \<and> failed r = NaN)"
proof -
  let ?bad = "Obj [(''@_tests'', Str ''abc''), (''@_failures'', Str ''2''), (''@_skipped'', Str ''1'')]"
  have h: "report_groups malformed_doc = Inr [group_node ''10'' ''1'' ''0'' ''0'', ?bad]"
    by (simp add: malformed_doc_def report_doc_def report_groups_def)
  have ok: "\<forall>g\<in>set [group_node ''10'' ''1'' ''0'' ''0'', ?bad]. g \<noteq> Undefined \<and> g \<noteq> Null"
    by (simp add: group_node_def)
  have t: "attr_int ?bad ''@_tests'' = Inr NaN" "attr_int ?bad ''@_errors'' = Inr NaN"
    by (simp_all add: attr_int_def parseInt_def is_space_def is_digit_def)
  from aggregator_returns_nan [OF h ok] t h show ?thesis
    by auto
qed

text \<open>
  For that report the aggregator returns a record: no error, and the count of skipped
  tests of both groups beside three counters that are \<^verbatim>\<open>NaN\<close>.
\<close>

theorem aggregator_no_parse_error:
  "getCurrentResults malformed_doc
     = Inr \<lparr> total_r = NaN, passed = NaN, failed = NaN, skipped = Num 1 \<rparr>"
  by (simp add: malformed_doc_def eval_defs)

section \<open>The loop over the suites\<close>

lemma suite_body_ok:
  assumes "fetch_results e suite = Inr (c, r)"
  shows "suite_body e st suite =
           Inr \<lparr> regressionsDetected = (regressionsDetected st \<or> suite_regressed e suite),
                 outputLines = outputLines st @ [suite_line e suite] \<rparr>"
  using assms
  by (cases "verdict suite c r")
     (simp add: suite_body_def push_verdict_def suite_regressed_def suite_line_def)

lemma suite_body_stop: "fetch_results e suite = Inl s \<Longrightarrow> suite_body e st suite = Inl s"
  by (simp add: suite_body_def)

lemma loop_all_ok:
  assumes "\<forall>s\<in>set xs. \<exists>c r. fetch_results e s = Inr (c, r)"
  shows "suites_loop (suite_body e) st xs =
           Inr \<lparr> regressionsDetected = (regressionsDetected st \<or> (\<exists>s\<in>set xs. suite_regressed e s)),
                 outputLines = outputLines st @ map (suite_line e) xs \<rparr>"
  using assms
proof (induction xs arbitrary: st)
  case Nil
  then show ?case by simp
next
  case (Cons x xs)
  from Cons.prems obtain c r where "fetch_results e x = Inr (c, r)" by auto
  then have "suite_body e st x =
           Inr \<lparr> regressionsDetected = (regressionsDetected st \<or> suite_regressed e x),
                 outputLines = outputLines st @ [suite_line e x] \<rparr>"
    by (rule suite_body_ok)
  with Cons.IH Cons.prems show ?case by auto
qed

lemma loop_stops:
  assumes "\<forall>s\<in>set pre. \<exists>c r. fetch_results e s = Inr (c, r)"
    and "fetch_results e suite = Inl s"
  shows "suites_loop (suite_body e) st (pre @ suite # post) = Inl s"
  using assms(1)
proof (induction pre arbitrary: st)
  case Nil
  with assms(2) show ?case by (simp add: suite_body_stop)
next
  case (Cons x pre)
  from Cons.prems obtain c r where "fetch_results e x = Inr (c, r)" by auto
  then have "\<exists>st'. suite_body e st x = Inr st'"
    by (simp add: suite_body_ok)
  with Cons.IH Cons.prems show ?case by auto
qed

lemma fetch_results_input [simp]:
  "fetch_results (e \<lparr> suites_input := inp \<rparr>) s = fetch_results e s"
  by (simp add: fetch_results_def split: option.splits sum.splits)

lemma suite_regressed_input [simp]:
  "suite_regressed (e \<lparr> suites_input := inp \<rparr>) s = suite_regressed e s"
  by (simp add: suite_regressed_def)

lemma main_ts_all_ok:
  assumes "\<forall>s\<in>set (split_comma (suites_input e)). \<exists>c r. fetch_results e s = Inr (c, r)"
  shows "exit_code (main_ts e)
           = (if \<exists>s\<in>set (split_comma (suites_input e)). suite_regressed e s then 1 else 0)"
    and "check_result (main_ts e)
           = Some (if \<exists>s\<in>set (split_comma (suites_input e)). suite_regressed e s
                   then ''failure'' else ''success'',
                   join_with [CHR 0x0A] (map (suite_line e) (split_comma (suites_input e))))"
  using loop_all_ok [OF assms, of initial_state]
  by (simp_all add: main_ts_def initial_state_def split: prod.splits)

lemma main_ts_stops:
  assumes "split_comma (suites_input e) = pre @ suite # post"
    and "\<forall>s\<in>set pre. \<exists>c r. fetch_results e s = Inr (c, r)"
    and "fetch_results e suite = Inl s"
  shows "main_ts e = stopped s"
  using loop_stops [OF assms(2,3), of initial_state post] assms(1)
  by (simp add: main_ts_def)

lemma fetch_results_reference:
  assumes "read_report e (''./'' @ suite @ ''.xml'') = Some doc"
    and "getCurrentResults doc = Inr current"
  shows "fetch_results e suite =
           (case getReferenceResults (check_runs e) suite of
              Inl s \<Rightarrow> Inl s | Inr reference \<Rightarrow> Inr (current, reference))"
  using assms by (simp add: fetch_results_def)

text \<open>
  Claim C3. When the current and the reference results of every suite of the list are
  obtained, the TypeScript script exits with code 1 exactly when at least one suite is a
  regression and with code 0 exactly when none is; and the exit code is the same for every
  other input that lists the same suites, in whatever order.
\<close>

theorem overall_decision:
  assumes "\<forall>s\<in>set (split_comma (suites_input e)). \<exists>c r. fetch_results e s = Inr (c, r)"
  shows "(exit_code (main_ts e) = 1 \<longleftrightarrow> (\<exists>s\<in>set (split_comma (suites_input e)). suite_regressed e s))
       \<and> (exit_code (main_ts e) = 0 \<longleftrightarrow> \<not> (\<exists>s\<in>set (split_comma (suites_input e)). suite_regressed e s))
       \<and> (\<forall>inp. set (split_comma inp) = set (split_comma (suites_input e))
             \<longrightarrow> exit_code (main_ts (e \<lparr> suites_input := inp \<rparr>)) = exit_code (main_ts e))"
proof -
  have "exit_code (main_ts (e \<lparr> suites_input := inp \<rparr>)) = exit_code (main_ts e)"
    if "set (split_comma inp) = set (split_comma (suites_input e))" for inp
  proof -
    have "\<forall>s\<in>set (split_comma (suites_input (e \<lparr> suites_input := inp \<rparr>))).
            \<exists>c r. fetch_results (e \<lparr> suites_input := inp \<rparr>) s = Inr (c, r)"
      using assms that by simp
    from main_ts_all_ok(1) [OF this] main_ts_all_ok(1) [OF assms] that
    show ?thesis by simp
  qed
  with main_ts_all_ok(1) [OF assms] show ?thesis by simp
qed

text \<open>The example run: the first suite has 24 failures against 22, the second none.\<close>

lemma generic_current:
  "getCurrentResults (report_doc [group_node ''90'' ''20'' ''4'' ''0'', group_node ''4'' ''0'' ''0'' ''0''])
     = Inr \<lparr> total_r = Num 94, passed = Num 70, failed = Num 24, skipped = Num 0 \<rparr>"
  by (simp add: eval_defs)

lemma hpack_current:
  "getCurrentResults (report_doc [group_node ''2'' ''0'' ''0'' ''0'', group_node ''1'' ''0'' ''0'' ''0''])
     = Inr \<lparr> total_r = Num 3, passed = Num 3, failed = Num 0, skipped = Num 0 \<rparr>"
  by (simp add: eval_defs)

lemma generic_reference:
  "getReferenceResults [generic_check, hpack_check] ''generic''
     = Inr \<lparr> total_r = Num 94, passed = Num 72, failed = Num 22, skipped = Num 0 \<rparr>"
  by (simp add: getReferenceResults_def generic_check_def hpack_check_def regex_eval)

lemma hpack_reference:
  "getReferenceResults [generic_check, hpack_check] ''hpack''
     = Inr \<lparr> total_r = Num 3, passed = Num 3, failed = Num 0, skipped = Num 0 \<rparr>"
  by (simp add: getReferenceResults_def generic_check_def hpack_check_def regex_eval)

lemma example_fetch:
  "fetch_results example_env ''generic''
     = Inr (\<lparr> total_r = Num 94, passed = Num 70, failed = Num 24, skipped = Num 0 \<rparr>,
            \<lparr> total_r = Num 94, passed = Num 72, failed = Num 22, skipped = Num 0 \<rparr>)"
  "fetch_results example_env ''hpack''
     = Inr (\<lparr> total_r = Num 3, passed = Num 3, failed = Num 0, skipped = Num 0 \<rparr>,
            \<lparr> total_r = Num 3, passed = Num 3, failed = Num 0, skipped = Num 0 \<rparr>)"
  by (simp_all add: fetch_results_def example_env_def example_report_def generic_current
      hpack_current generic_reference hpack_reference)

lemma example_suites: "split_comma (suites_input example_env) = [''generic'', ''hpack'']"
  by (simp add: example_env_def)

text \<open>The run fails, also with the two suites in the other order.\<close>

theorem overall_decision_witness:
  "split_comma (suites_input example_env) = [''generic'', ''hpack'']
   \<and> (\<exists>c r. fetch_results example_env ''generic'' = Inr (c, r))
   \<and> (\<exists>c r. fetch_results example_env ''hpack'' = Inr (c, r))
   \<and> suite_regressed example_env ''generic''
   \<and> exit_code (main_ts example_env) = 1
   \<and> exit_code (main_ts (example_env \<lparr> suites_input := ''hpack,generic'' \<rparr>)) = 1"
proof -
  have h: "\<forall>s\<in>set (split_comma (suites_input example_env)).
             \<exists>c r. fetch_results example_env s = Inr (c, r)"
    by (simp add: example_suites example_fetch)
  have r: "suite_regressed example_env ''generic''"
    by (simp add: suite_regressed_def example_fetch verdict_def)
  have p: "set (split_comma ''hpack,generic'') = set (split_comma (suites_input example_env))"
    by (auto simp: example_suites)
  from overall_decision [OF h] h r p show ?thesis
    by (auto simp: example_suites example_fetch)
qed

text \<open>
  The later copy of the TypeScript script reports a regression through the conclusion
  of the check only: on the same run its exit code is 0.
\<close>

lemma main_ts_update_regression:
  "exit_code (main_ts_update example_env) = 0
   \<and> fst (the (check_result (main_ts_update example_env))) = ''failure''"
proof -
  have h: "\<forall>s\<in>set (split_comma (suites_input example_env)).
             \<exists>c r. fetch_results example_env s = Inr (c, r)"
    by (simp add: example_suites example_fetch)
  have r: "suite_regressed example_env ''generic''"
    by (simp add: suite_regressed_def example_fetch verdict_def)
  from loop_all_ok [OF h, of initial_state] r show ?thesis
    by (simp add: main_ts_update_def example_suites)
qed

section \<open>Stops inside the reference extractor\<close>

lemma getReferenceResults_no_check:
  assumes "find (\<lambda>c. name c = suite) checks = None"
  shows "getReferenceResults checks suite
           = Inl (ProcessExit 0 [''No '' @ json_stringify suite @ '' check found''])"
    and "getReferenceResults_mjs checks suite
           = Inl (ProcessExit 0 [''No '' @ json_stringify suite @ '' check found''])"
  using assms by (simp_all add: getReferenceResults_def getReferenceResults_mjs_def)

lemma getReferenceResults_no_summary:
  assumes "find (\<lambda>c. name c = suite) checks = Some check"
    and "summary check = None \<or> summary check = Some []"
  shows "getReferenceResults checks suite
           = Inl (ProcessExit 1 [''No summary found for check '' @ suite])"
  using assms by (auto simp: getReferenceResults_def present_summary_def)

lemma getReferenceResults_mismatch:
  assumes "find (\<lambda>c. name c = suite) checks = Some check"
    and "summary check = Some text" "text \<noteq> []" "exec regex text = None"
  shows "getReferenceResults checks suite
           = Inl (ProcessExit 1
               [''Output summary didn't match expected structure'',
                ''Structure was: '' @ regex_source,
                ''Output was:'' @ [CHR 0x0A] @ text])"
  using assms by (simp add: getReferenceResults_def present_summary_def)

lemma garbled_no_match: "exec regex ''no numbers here'' = None"
  by (simp add: regex_eval)

text \<open>
  Claim C5, as the script behaves. When the run reaches a suite that has no check run of
  its name (every earlier suite of the list yields both records, and the report of the
  suite itself is read and aggregated), the process ends there with exit code 0: it has
  written one line to the console, no later suite is compared, and no comment and no
  check is published, so no verdict line is emitted.
\<close>

theorem missing_check_soft_stop:
  assumes "split_comma (suites_input e) = pre @ suite # post"
    and "\<forall>s\<in>set pre. \<exists>c r. fetch_results e s = Inr (c, r)"
    and "read_report e (''./'' @ suite @ ''.xml'') = Some doc"
    and "getCurrentResults doc = Inr current"
    and "find (\<lambda>c. name c = suite) (check_runs e) = None"
  shows "main_ts e =
           \<lparr> exit_code = 0, console = [''No '' @ json_stringify suite @ '' check found''],
             comment_body = None, check_result = None \<rparr>"
proof -
  have "fetch_results e suite
          = Inl (ProcessExit 0 [''No '' @ json_stringify suite @ '' check found''])"
    using assms(5) by (simp add: fetch_results_reference [OF assms(3,4)] getReferenceResults_def)
  from main_ts_stops [OF assms(1,2) this] show ?thesis
    by (simp add: stopped_def)
qed

text \<open>
  The second of two suites has no check run. The run ends with exit code 0, although the
  first suite is a regression.
\<close>

theorem missing_check_soft_stop_witness:
  "split_comma (suites_input first_run_env) = [''generic''] @ ''hpack'' # []
   \<and> suite_regressed first_run_env ''generic''
   \<and> find (\<lambda>c. name c = ''hpack'') (check_runs first_run_env) = None
   \<and> main_ts first_run_env =
       \<lparr> exit_code = 0,
         console = [''No '' @ [CHR 0x22] @ ''hpack'' @ [CHR 0x22] @ '' check found''],
         comment_body = None, check_result = None \<rparr>"
proof -
  have s: "split_comma (suites_input first_run_env) = [''generic''] @ ''hpack'' # []"
    by (simp add: first_run_env_def)
  have g: "fetch_results first_run_env ''generic''
     = Inr (\<lparr> total_r = Num 94, passed = Num 70, failed = Num 24, skipped = Num 0 \<rparr>,
            \<lparr> total_r = Num 94, passed = Num 72, failed = Num 22, skipped = Num 0 \<rparr>)"
    by (simp add: fetch_results_def first_run_env_def example_report_def generic_current
        getReferenceResults_def generic_check_def regex_eval)
  then have pre: "\<forall>s\<in>set [''generic'']. \<exists>c r. fetch_results first_run_env s = Inr (c, r)"
    by simp
  have rd: "read_report first_run_env (''./'' @ ''hpack'' @ ''.xml'')
              = Some (report_doc [group_node ''2'' ''0'' ''0'' ''0'', group_node ''1'' ''0'' ''0'' ''0''])"
    by (simp add: first_run_env_def example_report_def)
  have nf: "find (\<lambda>c. name c = ''hpack'') (check_runs first_run_env) = None"
    by (simp add: first_run_env_def generic_check_def)
  have r: "suite_regressed first_run_env ''generic''"
    by (simp add: suite_regressed_def g verdict_def)
  from missing_check_soft_stop [OF s pre rd hpack_current nf] s r nf show ?thesis
    by (simp add: json_stringify_def json_escape_def)
qed

text \<open>
  A suite without check run does not make every run end in success: here the only check
  run is that of the first suite, its summary is no summary sentence, and the process
  ends with exit code 1 before it looks for the check run of the second suite.
\<close>

theorem missing_check_not_always_success:
  "split_comma (suites_input garbled_env) = [''generic'', ''hpack'']
   \<and> map name (check_runs garbled_env) = [''generic'']
   \<and> exit_code (main_ts garbled_env) = 1"
proof -
  have "fetch_results garbled_env ''generic''
          = Inl (ProcessExit 1
              [''Output summary didn't match expected structure'',
               ''Structure was: '' @ regex_source,
               ''Output was:'' @ [CHR 0x0A] @ ''no numbers here''])"
    by (simp add: fetch_results_def garbled_env_def example_report_def generic_current
        getReferenceResults_def regex_eval)
  then have "main_ts garbled_env = stopped (ProcessExit 1
              [''Output summary didn't match expected structure'',
               ''Structure was: '' @ regex_source,
               ''Output was:'' @ [CHR 0x0A] @ ''no numbers here''])"
    using main_ts_stops [of garbled_env "[]" "''generic''" "[''hpack'']"]
    by (simp add: garbled_env_def)
  then show ?thesis
    by (simp add: stopped_def garbled_env_def)
qed

text \<open>
  Claim C9, as the TypeScript script behaves. When the run reaches a suite whose check
  run has no summary (\<^verbatim>\<open>null\<close> or the empty string), the process writes
  \<^verbatim>\<open>No summary found for check <suite>\<close> and ends with exit code 1. When the summary is a
  non-empty text in which the pattern matches nowhere, it writes three lines, with the
  pattern and with the summary, and ends with exit code 1. In both cases nothing is
  published: no verdict line is emitted.
\<close>

theorem summary_errors_fatal:
  assumes "split_comma (suites_input e) = pre @ suite # post"
    and "\<forall>s\<in>set pre. \<exists>c r. fetch_results e s = Inr (c, r)"
    and "read_report e (''./'' @ suite @ ''.xml'') = Some doc"
    and "getCurrentResults doc = Inr current"
    and "find (\<lambda>c. name c = suite) (check_runs e) = Some check"
  shows "(summary check = None \<or> summary check = Some [] \<longrightarrow>
            main_ts e =
              \<lparr> exit_code = 1, console = [''No summary found for check '' @ suite],
                comment_body = None, check_result = None \<rparr>)
       \<and> (\<forall>text. summary check = Some text \<and> text \<noteq> [] \<and> exec regex text = None \<longrightarrow>
            main_ts e =
              \<lparr> exit_code = 1,
                console = [''Output summary didn't match expected structure'',
                           ''Structure was: '' @ regex_source,
                           ''Output was:'' @ [CHR 0x0A] @ text],
                comment_body = None, check_result = None \<rparr>)"
proof (intro conjI impI allI)
  assume "summary check = None \<or> summary check = Some []"
  then have "fetch_results e suite
               = Inl (ProcessExit 1 [''No summary found for check '' @ suite])"
    by (simp add: fetch_results_reference [OF assms(3,4)]
        getReferenceResults_no_summary [OF assms(5)])
  from main_ts_stops [OF assms(1,2) this]
  show "main_ts e =
              \<lparr> exit_code = 1, console = [''No summary found for check '' @ suite],
                comment_body = None, check_result = None \<rparr>"
    by (simp add: stopped_def)
next
  fix body
  assume "summary check = Some body \<and> body \<noteq> [] \<and> exec regex body = None"
  then have "fetch_results e suite
               = Inl (ProcessExit 1
               [''Output summary didn't match expected structure'',
                ''Structure was: '' @ regex_source,
                ''Output was:'' @ [CHR 0x0A] @ body])"
    by (simp add: fetch_results_reference [OF assms(3,4)]
        getReferenceResults_mismatch [OF assms(5)])
  from main_ts_stops [OF assms(1,2) this]
  show "main_ts e =
              \<lparr> exit_code = 1,
                console = [''Output summary didn't match expected structure'',
                           ''Structure was: '' @ regex_source,
                           ''Output was:'' @ [CHR 0x0A] @ body],
                comment_body = None, check_result = None \<rparr>"
    by (simp add: stopped_def)
qed

text \<open>A run with a summary that does not match, and a run with a check run without summary.\<close>

theorem summary_errors_fatal_witness:
  "split_comma (suites_input garbled_env) = [] @ ''generic'' # [''hpack'']
   \<and> find (\<lambda>c. name c = ''generic'') (check_runs garbled_env)
       = Some \<lparr> name = ''generic'', summary = Some ''no numbers here'' \<rparr>
   \<and> main_ts garbled_env =
       \<lparr> exit_code = 1,
         console = [''Output summary didn't match expected structure'',
                    ''Structure was: '' @ regex_source,
                    ''Output was:'' @ [CHR 0x0A] @ ''no numbers here''],
         comment_body = None, check_result = None \<rparr>
   \<and> split_comma (suites_input no_summary_env) = [] @ ''generic'' # []
   \<and> main_ts no_summary_env =
       \<lparr> exit_code = 1, console = [''No summary found for check generic''],
         comment_body = None, check_result = None \<rparr>"
proof -
  have s: "split_comma (suites_input garbled_env) = [] @ ''generic'' # [''hpack'']"
    by (simp add: garbled_env_def)
  have rd: "read_report garbled_env (''./'' @ ''generic'' @ ''.xml'')
    = Some (report_doc [group_node ''90'' ''20'' ''4'' ''0'', group_node ''4'' ''0'' ''0'' ''0''])"
    by (simp add: garbled_env_def example_report_def)
  have f: "find (\<lambda>c. name c = ''generic'') (check_runs garbled_env)
       = Some \<lparr> name = ''generic'', summary = Some ''no numbers here'' \<rparr>"
    by (simp add: garbled_env_def)
  have s2: "split_comma (suites_input no_summary_env) = [] @ ''generic'' # []"
    by (simp add: no_summary_env_def)
  have rd2: "read_report no_summary_env (''./'' @ ''generic'' @ ''.xml'')
    = Some (report_doc [group_node ''90'' ''20'' ''4'' ''0'', group_node ''4'' ''0'' ''0'' ''0''])"
    by (simp add: no_summary_env_def example_report_def)
  have f2: "find (\<lambda>c. name c = ''generic'') (check_runs no_summary_env)
       = Some \<lparr> name = ''generic'', summary = None \<rparr>"
    by (simp add: no_summary_env_def)
  from summary_errors_fatal [OF s _ rd generic_current f]
       summary_errors_fatal [OF s2 _ rd2 generic_current f2]
       garbled_no_match s f s2
  show ?thesis by simp
qed

text \<open>
  For a check run without summary the console holds one line, which names the check; it
  shows neither the pattern nor any text.
\<close>

theorem no_summary_without_pattern:
  "main_ts no_summary_env =
     \<lparr> exit_code = 1, console = [''No summary found for check generic''],
       comment_body = None, check_result = None \<rparr>"
proof -
  have "fetch_results no_summary_env ''generic''
          = Inl (ProcessExit 1 [''No summary found for check generic''])"
    by (simp add: fetch_results_def no_summary_env_def example_report_def generic_current
        getReferenceResults_def present_summary_def)
  then have "main_ts no_summary_env = stopped (ProcessExit 1 [''No summary found for check generic''])"
    using main_ts_stops [of no_summary_env "[]" "''generic''" "[]"]
    by (simp add: no_summary_env_def)
  then show ?thesis by (simp add: stopped_def)
qed

section \<open>The older script \<^verbatim>\<open>index.mjs\<close>\<close>

text \<open>
  The extractor of \<^verbatim>\<open>index.mjs\<close> has no guard: without summary, and with a summary that
  does not match, it throws a TypeError.
\<close>

lemma no_summary_mjs:
  "getReferenceResults_mjs [\<lparr> name = ''generic'', summary = None \<rparr>] ''generic''
     = Inl (Uncaught TypeError)"
  "getReferenceResults_mjs [\<lparr> name = ''generic'', summary = Some ''no numbers here'' \<rparr>] ''generic''
     = Inl (Uncaught TypeError)"
  by (simp_all add: getReferenceResults_mjs_def regex_eval)

lemma generic_reference_mjs:
  "getReferenceResults_mjs [generic_check, hpack_check] ''generic''
     = Inr \<lparr> total_r = Num 94, passed = Num 72, failed = Num 22, skipped = Num 0 \<rparr>"
  by (simp add: getReferenceResults_mjs_def generic_check_def hpack_check_def regex_eval)

lemma suite_body_mjs_never_pushes: "suite_body_mjs e st suite \<noteq> Inr st'"
  by (auto simp: suite_body_mjs_def verdict_mjs_def split: sum.splits)

text \<open>
  Claim C7 on \<^verbatim>\<open>index.mjs\<close>. For the suite of the example run both records are obtained,
  24 failures against 22; the loop body then throws a ReferenceError instead of pushing
  the line \<^verbatim>\<open>Regression detected in generic: 24 > 22\<close>, and the process ends with exit
  code 1 and nothing published. The TypeScript script produces the lines of the claim
  (\<open>verdict_lines\<close>).
\<close>

theorem verdict_line_mjs_throws:
  "fetch_results_mjs example_env ''generic''
     = Inr (\<lparr> total_r = Num 94, passed = Num 70, failed = Num 24, skipped = Num 0 \<rparr>,
            \<lparr> total_r = Num 94, passed = Num 72, failed = Num 22, skipped = Num 0 \<rparr>)
   \<and> suite_body_mjs example_env initial_state ''generic'' = Inl (Uncaught ReferenceError)
   \<and> main_mjs example_env
       = \<lparr> exit_code = 1, console = [], comment_body = None, check_result = None \<rparr>"
proof -
  have f: "fetch_results_mjs example_env ''generic''
     = Inr (\<lparr> total_r = Num 94, passed = Num 70, failed = Num 24, skipped = Num 0 \<rparr>,
            \<lparr> total_r = Num 94, passed = Num 72, failed = Num 22, skipped = Num 0 \<rparr>)"
    by (simp add: fetch_results_mjs_def example_env_def example_report_def generic_current
        generic_reference_mjs)
  then have b: "suite_body_mjs example_env st ''generic'' = Inl (Uncaught ReferenceError)" for st
    by (simp add: suite_body_mjs_def verdict_mjs_def)
  then have "main_mjs example_env = stopped (Uncaught ReferenceError)"
    by (simp add: main_mjs_def example_suites)
  with f b show ?thesis by (simp add: stopped_def)
qed

end
